theory Spec2Isabelle
  imports Main "HOL-Library.Word"
begin

section \<open>The API key service (services/apikey.service)\<close>

text \<open>
  The key store is the JSON document \<^verbatim>\<open>{keys: [...]}\<close> that \<^verbatim>\<open>loadApiKeys\<close> reads and
  \<^verbatim>\<open>saveApiKeys\<close> rewrites as a whole. The model passes the document explicitly: every
  operation takes the document it loads and returns the document it saves. Reading the
  clock (\<^verbatim>\<open>new Date()\<close>), the random bytes of \<^verbatim>\<open>crypto.randomBytes\<close> and the value of
  \<^verbatim>\<open>crypto.randomUUID()\<close> are inputs of the operation that uses them. Instants are
  milliseconds since the epoch. The file is taken to be readable and writable:
  \<^verbatim>\<open>loadApiKeys\<close> gives the empty document when it cannot read the file, and
  \<^verbatim>\<open>saveApiKeys\<close> logs a failed write and its callers go on as if it had succeeded;
  neither failure is part of the model. Field values have the types the route
  documents (strings, an array of strings, a date).

  \<^verbatim>\<open>expiresAt\<close> holds whatever the caller passed. The code only asks two questions of it,
  whether it is truthy and what \<^verbatim>\<open>new Date(expiresAt)\<close> gives, so the model keeps the
  answers: \<open>NoExpiry\<close> is null or any other falsy value, \<open>InvalidDate\<close> a truthy value
  that \<^verbatim>\<open>new Date\<close> cannot read (every comparison with it is false), \<open>ExpiresAt t\<close> a
  truthy value read as the instant \<open>t\<close>.
\<close>

datatype expiry = NoExpiry | InvalidDate | ExpiresAt int

text \<open>
  A stored record. The field \<^verbatim>\<open>id\<close> is called \<open>id_key\<close> here. The optional fields
  \<^verbatim>\<open>revokedAt\<close>, \<^verbatim>\<open>updatedAt\<close> and \<^verbatim>\<open>regeneratedAt\<close> are absent (\<open>None\<close>) until an operation
  sets them.
\<close>

record apikey =
  id_key :: string
  key :: string
  name :: string
  description :: string
  permissions :: "string list"
  active :: bool
  createdAt :: int
  expiresAt :: expiry
  lastUsedAt :: "int option"
  usageCount :: nat
  revokedAt :: "int option"
  updatedAt :: "int option"
  regeneratedAt :: "int option"

record keystore =
  keys :: "apikey list"

text \<open>\<^verbatim>\<open>Array.prototype.findIndex\<close>: the first index whose element satisfies the
  predicate; \<open>None\<close> stands for the result -1.\<close>

fun findIndex :: "('a \<Rightarrow> bool) \<Rightarrow> 'a list \<Rightarrow> nat option" where
  "findIndex P [] = None"
| "findIndex P (x # xs) = (if P x then Some 0 else map_option Suc (findIndex P xs))"

text \<open>\<^verbatim>\<open>generateKey\<close>: the prefix \<^verbatim>\<open>wapi_\<close> and the random bytes in lower-case hex.\<close>

definition hex_digit :: "nat \<Rightarrow> char" where
  "hex_digit n = ''0123456789abcdef'' ! (n mod 16)"

definition toHex :: "8 word list \<Rightarrow> string" where
  "toHex bs = concat (map (\<lambda>b. [hex_digit (unat b div 16), hex_digit (unat b mod 16)]) bs)"

definition generateKey :: "8 word list \<Rightarrow> string" where
  "generateKey randomBytes = ''wapi_'' @ toHex randomBytes"

text \<open>The options object of \<^verbatim>\<open>createApiKey\<close>: a property that is not passed is \<open>None\<close>.\<close>

record create_options =
  opt_name :: "string option"
  opt_description :: "string option"
  opt_expiresAt :: "expiry option"
  opt_permissions :: "string list option"

text \<open>\<^verbatim>\<open>v || d\<close> on a string property: undefined and the empty string are falsy.\<close>

definition or_string :: "string option \<Rightarrow> string \<Rightarrow> string" where
  "or_string v d = (case v of None \<Rightarrow> d | Some s \<Rightarrow> if s = [] then d else s)"

text \<open>\<^verbatim>\<open>options.permissions || ['*']\<close>: every array is truthy, the empty one too.\<close>

definition or_permissions :: "string list option \<Rightarrow> string list \<Rightarrow> string list" where
  "or_permissions v d = (case v of None \<Rightarrow> d | Some ps \<Rightarrow> ps)"

text \<open>\<^verbatim>\<open>options.expiresAt || null\<close>: a falsy value is already \<open>NoExpiry\<close>.\<close>

definition or_null :: "expiry option \<Rightarrow> expiry" where
  "or_null v = (case v of None \<Rightarrow> NoExpiry | Some e \<Rightarrow> e)"

definition createApiKey ::
  "create_options \<Rightarrow> string \<Rightarrow> 8 word list \<Rightarrow> int \<Rightarrow> keystore \<Rightarrow> keystore \<times> apikey" where
  "createApiKey options randomUUID randomBytes now data =
     (let newKey = \<lparr> id_key = randomUUID,
                      key = generateKey randomBytes,
                      name = or_string (opt_name options) ''API Key'',
                      description = or_string (opt_description options) '''',
                      permissions = or_permissions (opt_permissions options) [''*''],
                      active = True,
                      createdAt = now,
                      expiresAt = or_null (opt_expiresAt options),
                      lastUsedAt = None,
                      usageCount = 0,
                      revokedAt = None,
                      updatedAt = None,
                      regeneratedAt = None \<rparr>
      in (data\<lparr>keys := keys data @ [newKey]\<rparr>, newKey))"

text \<open>
  What \<^verbatim>\<open>validateApiKey\<close> returns on success, and what the middleware attaches to the
  request: the literal object of the master key, the stored record, or the object the
  middleware builds in development mode.
\<close>

datatype keyinfo = MasterKey | StoredKey apikey | DevMode

fun isMaster :: "keyinfo \<Rightarrow> bool" where
  "isMaster MasterKey = True"
| "isMaster (StoredKey k) = False"
| "isMaster DevMode = True"

fun info_permissions :: "keyinfo \<Rightarrow> string list" where
  "info_permissions MasterKey = [''*'']"
| "info_permissions (StoredKey k) = permissions k"
| "info_permissions DevMode = [''*'']"

text \<open>\<^verbatim>\<open>masterKey && apiKey === masterKey\<close>, with \<^verbatim>\<open>process.env.API_KEY\<close> unset as \<open>None\<close>.\<close>

definition is_master_key :: "string option \<Rightarrow> string \<Rightarrow> bool" where
  "is_master_key masterKey apiKey =
     (case masterKey of None \<Rightarrow> False | Some m \<Rightarrow> m \<noteq> [] \<and> apiKey = m)"

text \<open>\<^verbatim>\<open>keyInfo.expiresAt && new Date(keyInfo.expiresAt) < new Date()\<close>.\<close>

fun isExpired :: "expiry \<Rightarrow> int \<Rightarrow> bool" where
  "isExpired NoExpiry now = False"
| "isExpired InvalidDate now = False"
| "isExpired (ExpiresAt t) now = (t < now)"

text \<open>
  \<^verbatim>\<open>validateApiKey\<close>. \<^verbatim>\<open>find\<close> returns the first record with this key that is active, and
  the code updates that record in place before it saves the document; \<open>None\<close> is the
  result null.
\<close>

definition validateApiKey ::
  "string option \<Rightarrow> string \<Rightarrow> int \<Rightarrow> keystore \<Rightarrow> keystore \<times> keyinfo option" where
  "validateApiKey masterKey apiKey now data =
     (if is_master_key masterKey apiKey then (data, Some MasterKey)
      else case findIndex (\<lambda>k. key k = apiKey \<and> active k) (keys data) of
             None \<Rightarrow> (data, None)
           | Some i \<Rightarrow>
               (let keyInfo = keys data ! i in
                if isExpired (expiresAt keyInfo) now then (data, None)
                else
                  (let used = keyInfo\<lparr>lastUsedAt := Some now,
                                      usageCount := usageCount keyInfo + 1\<rparr>
                   in (data\<lparr>keys := (keys data)[i := used]\<rparr>, Some (StoredKey used)))))"

text \<open>\<^verbatim>\<open>listApiKeys\<close>: the view of a record, its key masked unless \<^verbatim>\<open>includeKey\<close>.\<close>

record apikey_view =
  view_id :: string
  view_key :: string
  view_name :: string
  view_description :: string
  view_permissions :: "string list"
  view_active :: bool
  view_createdAt :: int
  view_expiresAt :: expiry
  view_lastUsedAt :: "int option"
  view_usageCount :: nat

text \<open>\<^verbatim>\<open>k.substring(0, 12)\<close>, then three dots, then \<^verbatim>\<open>k.slice(-4)\<close> (the whole
  string when it has fewer than four characters).\<close>

definition mask_key :: "string \<Rightarrow> string" where
  "mask_key k = take 12 k @ ''...'' @ drop (length k - 4) k"

definition listApiKeys :: "bool \<Rightarrow> keystore \<Rightarrow> apikey_view list" where
  "listApiKeys includeKey data =
     map (\<lambda>k. \<lparr> view_id = id_key k,
                 view_key = (if includeKey then key k else mask_key (key k)),
                 view_name = name k,
                 view_description = description k,
                 view_permissions = permissions k,
                 view_active = active k,
                 view_createdAt = createdAt k,
                 view_expiresAt = expiresAt k,
                 view_lastUsedAt = lastUsedAt k,
                 view_usageCount = usageCount k \<rparr>) (keys data)"

definition getApiKeyById :: "string \<Rightarrow> keystore \<Rightarrow> apikey option" where
  "getApiKeyById i data = find (\<lambda>k. id_key k = i) (keys data)"

text \<open>The result objects \<^verbatim>\<open>{success: false, error}\<close> and \<^verbatim>\<open>{success: true, ...}\<close>; the one
  error of the service is \<^verbatim>\<open>API Key no encontrada\<close>.\<close>

datatype 'a outcome = NotFound | Success 'a

definition revokeApiKey :: "string \<Rightarrow> int \<Rightarrow> keystore \<Rightarrow> keystore \<times> unit outcome" where
  "revokeApiKey i now data =
     (case findIndex (\<lambda>k. id_key k = i) (keys data) of
        None \<Rightarrow> (data, NotFound)
      | Some keyIndex \<Rightarrow>
          (data\<lparr>keys := (keys data)[keyIndex :=
             (keys data ! keyIndex)\<lparr>active := False, revokedAt := Some now\<rparr>]\<rparr>, Success ()))"

definition activateApiKey :: "string \<Rightarrow> keystore \<Rightarrow> keystore \<times> unit outcome" where
  "activateApiKey i data =
     (case findIndex (\<lambda>k. id_key k = i) (keys data) of
        None \<Rightarrow> (data, NotFound)
      | Some keyIndex \<Rightarrow>
          (data\<lparr>keys := (keys data)[keyIndex :=
             (keys data ! keyIndex)\<lparr>active := True, revokedAt := None\<rparr>]\<rparr>, Success ()))"

text \<open>\<^verbatim>\<open>data.keys.splice(keyIndex, 1)\<close> removes the one element at \<open>keyIndex\<close>.\<close>

definition deleteApiKey :: "string \<Rightarrow> keystore \<Rightarrow> keystore \<times> unit outcome" where
  "deleteApiKey i data =
     (case findIndex (\<lambda>k. id_key k = i) (keys data) of
        None \<Rightarrow> (data, NotFound)
      | Some keyIndex \<Rightarrow>
          (data\<lparr>keys := take keyIndex (keys data) @ drop (Suc keyIndex) (keys data)\<rparr>,
           Success ()))"

text \<open>
  The updates object of \<^verbatim>\<open>updateApiKey\<close>. A property that is undefined is \<open>None\<close>.
  \<open>upd_other\<close> holds every further property the caller passes (\<^verbatim>\<open>key\<close>, \<^verbatim>\<open>id\<close>,
  \<^verbatim>\<open>active\<close>, \<^verbatim>\<open>usageCount\<close>, ...), each as its name and its JSON text.
\<close>

record updates =
  upd_name :: "string option"
  upd_description :: "string option"
  upd_permissions :: "string list option"
  upd_expiresAt :: "expiry option"
  upd_other :: "(string \<times> string) list"

text \<open>The loop over \<^verbatim>\<open>allowedUpdates\<close>, one step for each of its four names in order.\<close>

definition apply_updates :: "updates \<Rightarrow> apikey \<Rightarrow> apikey" where
  "apply_updates u k =
     (let k1 = (case upd_name u of None \<Rightarrow> k | Some v \<Rightarrow> k\<lparr>name := v\<rparr>);
          k2 = (case upd_description u of None \<Rightarrow> k1 | Some v \<Rightarrow> k1\<lparr>description := v\<rparr>);
          k3 = (case upd_permissions u of None \<Rightarrow> k2 | Some v \<Rightarrow> k2\<lparr>permissions := v\<rparr>);
          k4 = (case upd_expiresAt u of None \<Rightarrow> k3 | Some v \<Rightarrow> k3\<lparr>expiresAt := v\<rparr>)
      in k4)"

definition updateApiKey ::
  "string \<Rightarrow> updates \<Rightarrow> int \<Rightarrow> keystore \<Rightarrow> keystore \<times> apikey outcome" where
  "updateApiKey i u now data =
     (case findIndex (\<lambda>k. id_key k = i) (keys data) of
        None \<Rightarrow> (data, NotFound)
      | Some keyIndex \<Rightarrow>
          (let updated = (apply_updates u (keys data ! keyIndex))\<lparr>updatedAt := Some now\<rparr>
           in (data\<lparr>keys := (keys data)[keyIndex := updated]\<rparr>, Success updated)))"

text \<open>\<^verbatim>\<open>regenerateApiKey\<close>: the new key is stored in the record and returned.\<close>

definition regenerateApiKey ::
  "string \<Rightarrow> 8 word list \<Rightarrow> int \<Rightarrow> keystore \<Rightarrow> keystore \<times> string outcome" where
  "regenerateApiKey i randomBytes now data =
     (case findIndex (\<lambda>k. id_key k = i) (keys data) of
        None \<Rightarrow> (data, NotFound)
      | Some keyIndex \<Rightarrow>
          (let newKey = generateKey randomBytes
           in (data\<lparr>keys := (keys data)[keyIndex :=
                 (keys data ! keyIndex)\<lparr>key := newKey, regeneratedAt := Some now\<rparr>]\<rparr>,
               Success newKey)))"

text \<open>
  A history of the store: the calls made to the service since the document was created
  empty (\<^verbatim>\<open>loadApiKeys\<close> gives \<^verbatim>\<open>{keys: []}\<close> when there is no file), with the inputs
  each call read. \<open>run\<close> is the document after the calls, for the master key \<open>m\<close> of the
  process.
\<close>

datatype operation =
    Create create_options string "8 word list" int
  | Validate string int
  | Revoke string int
  | Activate string
  | Delete string
  | Update string updates int
  | Regenerate string "8 word list" int

fun perform :: "string option \<Rightarrow> operation \<Rightarrow> keystore \<Rightarrow> keystore" where
  "perform m (Create options uuid bytes now) data = fst (createApiKey options uuid bytes now data)"
| "perform m (Validate apiKey now) data = fst (validateApiKey m apiKey now data)"
| "perform m (Revoke i now) data = fst (revokeApiKey i now data)"
| "perform m (Activate i) data = fst (activateApiKey i data)"
| "perform m (Delete i) data = fst (deleteApiKey i data)"
| "perform m (Update i u now) data = fst (updateApiKey i u now data)"
| "perform m (Regenerate i bytes now) data = fst (regenerateApiKey i bytes now data)"

definition run :: "string option \<Rightarrow> operation list \<Rightarrow> keystore" where
  "run m calls = foldl (\<lambda>data call. perform m call data) \<lparr>keys = []\<rparr> calls"

text \<open>
  A short history used to instantiate the theorems below: a first key that is created
  and then revoked, and a second key that expires at instant 50.
\<close>

definition sample_calls :: "operation list" where
  "sample_calls =
     [Create \<lparr>opt_name = Some ''app'', opt_description = None,
              opt_expiresAt = None, opt_permissions = None\<rparr>
        ''7f3c1a52-0b6e-4d8a-9c11-2e5f40a1b001''
        [0x01, 0x01, 0x01, 0x01, 0x01, 0x01, 0x01, 0x01, 0x01, 0x01, 0x01, 0x01, 0x01,
          0x01, 0x01, 0x01, 0x01, 0x01, 0x01, 0x01, 0x01, 0x01, 0x01, 0x01] 10,
      Create \<lparr>opt_name = Some ''old'', opt_description = None,
              opt_expiresAt = Some (ExpiresAt 50),
              opt_permissions = Some [''messages:send'']\<rparr>
        ''7f3c1a52-0b6e-4d8a-9c11-2e5f40a1b002''
        [0x02, 0x02, 0x02, 0x02, 0x02, 0x02, 0x02, 0x02, 0x02, 0x02, 0x02, 0x02, 0x02,
          0x02, 0x02, 0x02, 0x02, 0x02, 0x02, 0x02, 0x02, 0x02, 0x02, 0x02] 10,
      Revoke ''7f3c1a52-0b6e-4d8a-9c11-2e5f40a1b001'' 20]"

section \<open>The authentication middleware (middlewares/auth.js)\<close>

text \<open>The two environment variables the middleware reads; \<open>None\<close> is an unset variable.\<close>

record env =
  API_KEY :: "string option"
  NODE_ENV :: "string option"

text \<open>
  What a middleware does with a request: \<open>Next a\<close> passes it on with \<open>a\<close> attached as
  \<^verbatim>\<open>req.apiKeyInfo\<close>; \<open>Json status error code required\<close> answers it with that status and
  the body \<^verbatim>\<open>{success: false, error, code}\<close> (and \<^verbatim>\<open>required\<close> where the code adds it).
\<close>

datatype 'a reply = Next 'a | Json nat string string "string list option"

text \<open>Truthiness of a header or of an environment variable: set and not empty.\<close>

definition truthy :: "string option \<Rightarrow> bool" where
  "truthy v = (case v of None \<Rightarrow> False | Some s \<Rightarrow> s \<noteq> [])"

text \<open>The message \<^verbatim>\<open>API Key inv\<close>a\<^verbatim>\<open>lida o expirada\<close>, its accented a as the two bytes of UTF-8.\<close>

definition msg_invalid :: string where
  "msg_invalid = ''API Key inv'' @ [CHR 0xC3, CHR 0xA1] @ ''lida o expirada''"

definition apiKeyAuth ::
  "env \<Rightarrow> string option \<Rightarrow> int \<Rightarrow> keystore \<Rightarrow> keystore \<times> keyinfo reply" where
  "apiKeyAuth env header now data =
     (if \<not> truthy (API_KEY env) \<and> NODE_ENV env = Some ''development''
      then (data, Next DevMode)
      else if \<not> truthy header
      then (data, Json 401 ''API Key requerida'' ''MISSING_API_KEY'' None)
      else case validateApiKey (API_KEY env) (the header) now data of
             (data', None) \<Rightarrow> (data', Json 403 msg_invalid ''INVALID_API_KEY'' None)
           | (data', Some keyInfo) \<Rightarrow> (data', Next keyInfo))"

text \<open>\<^verbatim>\<open>requirePermission\<close> takes one permission or an array of them.\<close>

datatype required = One string | Many "string list"

definition requirePermission :: "required \<Rightarrow> keyinfo option \<Rightarrow> unit reply" where
  "requirePermission requiredPermissions apiKeyInfo =
     (case apiKeyInfo of
        None \<Rightarrow> Json 401 ''No autenticado'' ''NOT_AUTHENTICATED'' None
      | Some keyInfo \<Rightarrow>
          if isMaster keyInfo \<or> List.member (info_permissions keyInfo) ''*'' then Next ()
          else
            (let perms = (case requiredPermissions of One p \<Rightarrow> [p] | Many ps \<Rightarrow> ps);
                 hasPermission = list_ex (\<lambda>p. List.member (info_permissions keyInfo) p) perms
             in if \<not> hasPermission
                then Json 403 ''Permisos insuficientes'' ''INSUFFICIENT_PERMISSIONS'' (Some perms)
                else Next ()))"

section \<open>The event hub of the WhatsApp service (services/whatsapp.service)\<close>

text \<open>
  A handler is a JavaScript function called with the data of the event. A call changes
  the world \<open>'w\<close> that the function can reach and then either returns or throws: the
  second component of the result is the message of the exception (\<open>None\<close> when the call
  returns). \<^verbatim>\<open>eventHandlers\<close> is the \<^verbatim>\<open>Map\<close> from event names to arrays of handlers.
\<close>

type_synonym ('d, 'w) handler = "'d \<Rightarrow> 'w \<Rightarrow> 'w \<times> string option"

type_synonym ('d, 'w) eventHandlers = "string \<Rightarrow> ('d, 'w) handler list option"

text \<open>\<^verbatim>\<open>on(event, handler)\<close>: create the array if the event has none, then push.\<close>

definition on ::
  "string \<Rightarrow> ('d, 'w) handler \<Rightarrow> ('d, 'w) eventHandlers \<Rightarrow> ('d, 'w) eventHandlers" where
  "on event handler hs =
     (let hs1 = (if hs event = None then hs(event \<mapsto> []) else hs)
      in hs1(event \<mapsto> the (hs1 event) @ [handler]))"

text \<open>\<^verbatim>\<open>handlers.forEach(handler => handler(data))\<close>: the calls are made one after the other
  inside the loop, and an exception thrown by one of them ends the loop.\<close>

fun forEach :: "('d, 'w) handler list \<Rightarrow> 'd \<Rightarrow> 'w \<Rightarrow> 'w \<times> string option" where
  "forEach [] d w = (w, None)"
| "forEach (h # hs) d w =
     (case h d w of
        (w', Some e) \<Rightarrow> (w', Some e)
      | (w', None) \<Rightarrow> forEach hs d w')"

text \<open>\<^verbatim>\<open>emit(event, data)\<close>, with \<^verbatim>\<open>this.eventHandlers.get(event) || []\<close>.\<close>

definition handlers_of :: "('d, 'w) eventHandlers \<Rightarrow> string \<Rightarrow> ('d, 'w) handler list" where
  "handlers_of hs event = (case hs event of None \<Rightarrow> [] | Some l \<Rightarrow> l)"

definition emit :: "('d, 'w) eventHandlers \<Rightarrow> string \<Rightarrow> 'd \<Rightarrow> 'w \<Rightarrow> 'w \<times> string option" where
  "emit hs event d w = forEach (handlers_of hs event) d w"

section \<open>The webhook routes (routes/webhook.routes.js)\<close>

text \<open>A registration. Its fields \<^verbatim>\<open>id\<close>, \<^verbatim>\<open>createdAt\<close> and \<^verbatim>\<open>active\<close> carry the prefix
  \<open>wh_\<close> here; \<open>secret\<close> is \<open>None\<close> when the request had none.\<close>

record webhook =
  wh_id :: string
  url :: string
  events :: "string list"
  secret :: "string option"
  wh_createdAt :: int
  wh_active :: bool

text \<open>
  What the forwarding callbacks act on: the \<^verbatim>\<open>webhooks\<close> map of the module, and the calls of
  \<^verbatim>\<open>sendWebhookNotification\<close> that have been started. That function is asynchronous and
  awaits before it does anything, so a call made during \<^verbatim>\<open>emit\<close> has sent nothing yet when
  \<^verbatim>\<open>emit\<close> returns; the call is recorded with its three arguments.
\<close>

record 'd hooks =
  webhooks :: "string \<Rightarrow> webhook option"
  started :: "(webhook \<times> string \<times> 'd) list"

text \<open>
  The callback that the register route subscribes for one event of one registration. It
  is an \<^verbatim>\<open>async\<close> function whose body is wrapped in \<^verbatim>\<open>try\<close>/\<^verbatim>\<open>catch\<close>: it reads the
  registration by id when it is called, starts the delivery if the registration is there
  and active, and never throws to its caller.
\<close>

definition forward :: "string \<Rightarrow> string \<Rightarrow> ('d, 'd hooks) handler" where
  "forward webhookId event data w =
     (case webhooks w webhookId of
        None \<Rightarrow> (w, None)
      | Some webhook \<Rightarrow>
          if wh_active webhook
          then (w\<lparr>started := started w @ [(webhook, event, data)]\<rparr>, None)
          else (w, None))"

text \<open>The body of a register request: \<open>body_url\<close> is \<open>None\<close> when the property is
  missing, \<open>body_events\<close> is \<open>None\<close> when the property is missing or is not an array.\<close>

record register_body =
  body_url :: "string option"
  body_events :: "string list option"
  body_secret :: "string option"

text \<open>The answers of the route: 400 with the messages of the failed checks, or 201 with
  the id, the url and the events of the new registration.\<close>

datatype register_reply = Invalid "string list" | Created string string "string list"

text \<open>\<^verbatim>\<open>Date.now()\<close> in decimal, for the id \<^verbatim>\<open>wh_\<close>\<open>n\<close>.\<close>

fun decimal :: "nat \<Rightarrow> string" where
  "decimal n =
     (if n < 10 then [''0123456789'' ! n]
      else decimal (n div 10) @ [''0123456789'' ! (n mod 10)])"

declare decimal.simps [simp del]

definition msg_url :: string where
  "msg_url = ''URL inv'' @ [CHR 0xC3, CHR 0xA1] @ ''lida''"

definition msg_events :: string where
  "msg_events = ''Se requiere al menos un evento''"

text \<open>
  The handler of \<^verbatim>\<open>POST /register\<close>, after \<open>apiKeyAuth\<close> has let the request pass. The two
  checks are the ones the route declares: \<^verbatim>\<open>isURL()\<close> of the validation library, taken as
  the parameter \<open>isURL\<close>, on the url, and \<^verbatim>\<open>isArray({min: 1})\<close> on the events. The events
  themselves are not looked at. \<^verbatim>\<open>events.forEach\<close> subscribes one forwarding callback for
  each element, in order.
\<close>

definition register ::
  "(string \<Rightarrow> bool) \<Rightarrow> register_body \<Rightarrow> nat \<Rightarrow> 'd hooks \<times> ('d, 'd hooks) eventHandlers \<Rightarrow>
     ('d hooks \<times> ('d, 'd hooks) eventHandlers) \<times> register_reply" where
  "register isURL body now st =
     (let errors =
            (case body_url body of
               None \<Rightarrow> [msg_url]
             | Some u \<Rightarrow> if isURL u then [] else [msg_url]) @
            (case body_events body of
               None \<Rightarrow> [msg_events]
             | Some es \<Rightarrow> if 1 \<le> length es then [] else [msg_events])
      in if errors \<noteq> [] then (st, Invalid errors)
         else
           (let u = the (body_url body);
                es = the (body_events body);
                webhookId = ''wh_'' @ decimal now;
                w = (fst st)\<lparr>webhooks := (webhooks (fst st))(webhookId \<mapsto>
                       \<lparr>wh_id = webhookId, url = u, events = es, secret = body_secret body,
                        wh_createdAt = int now, wh_active = True\<rparr>)\<rparr>;
                hs = foldl (\<lambda>hs event. on event (forward webhookId event) hs) (snd st) es
            in ((w, hs), Created webhookId u es)))"

text \<open>
  Two registrations for \<^verbatim>\<open>message\<close> made one after the other through the register
  route on a fresh module, the first with a secret; used to instantiate the theorems
  below. The url check is taken to accept both urls.
\<close>

definition sample_registered :: "string hooks \<times> (string, string hooks) eventHandlers" where
  "sample_registered =
     fst (register (\<lambda>u. True)
       \<lparr>body_url = Some ''https://b.example/hook'', body_events = Some [''message''],
        body_secret = None\<rparr> 1700000000002
       (fst (register (\<lambda>u. True)
          \<lparr>body_url = Some ''https://a.example/hook'', body_events = Some [''message''],
           body_secret = Some ''s3cret''\<rparr> 1700000000001
          (\<lparr>webhooks = (\<lambda>i. None), started = []\<rparr>, (\<lambda>event. None)))))"

text \<open>
  The data of an event as \<^verbatim>\<open>serializeData\<close> sees it: a falsy value (\<^verbatim>\<open>ready\<close> and
  \<^verbatim>\<open>authenticated\<close> are emitted with none), an object with both \<^verbatim>\<open>body\<close> and \<^verbatim>\<open>from\<close>
  defined, or anything else. Of a message the model keeps the properties the function
  copies; \<open>msg_rest\<close> is everything else the driver's object holds.
\<close>

record 'a wa_message =
  msg_id :: "string option"
  msg_from :: string
  msg_to :: "string option"
  msg_body :: string
  msg_timestamp :: "int option"
  msg_type :: "string option"
  msg_isForwarded :: "bool option"
  msg_hasMedia :: "bool option"
  msg_rest :: 'a

datatype ('a, 'b) event_data = Falsy | Message "'a wa_message" | Other 'b

datatype 'b serialized = Null | Extract "unit wa_message" | Unchanged 'b

fun serializeData :: "('a, 'b) event_data \<Rightarrow> 'b serialized" where
  "serializeData Falsy = Null"
| "serializeData (Message m) =
     Extract \<lparr>msg_id = msg_id m, msg_from = msg_from m, msg_to = msg_to m,
              msg_body = msg_body m, msg_timestamp = msg_timestamp m, msg_type = msg_type m,
              msg_isForwarded = msg_isForwarded m, msg_hasMedia = msg_hasMedia m,
              msg_rest = ()\<rparr>"
| "serializeData (Other v) = Unchanged v"

record 'b envelope =
  env_event :: string
  env_timestamp :: int
  env_data :: "'b serialized"

record request =
  req_url :: string
  req_headers :: "(string \<times> string) list"
  req_body :: string

text \<open>
  The request that \<^verbatim>\<open>sendWebhookNotification\<close> hands to \<^verbatim>\<open>fetch\<close>. \<^verbatim>\<open>JSON.stringify\<close> and the
  hex digest of \<^verbatim>\<open>crypto.createHmac('sha256', key)\<close> are functions of the platform, taken
  as the parameters \<open>stringify\<close> and \<open>hmac\<close>. The answer of \<^verbatim>\<open>fetch\<close> is only logged.
\<close>

definition sendWebhookNotification ::
  "('b envelope \<Rightarrow> string) \<Rightarrow> (string \<Rightarrow> string \<Rightarrow> string) \<Rightarrow>
     webhook \<Rightarrow> string \<Rightarrow> ('a, 'b) event_data \<Rightarrow> int \<Rightarrow> request" where
  "sendWebhookNotification stringify hmac webhook event data now =
     (let payload = \<lparr>env_event = event, env_timestamp = now, env_data = serializeData data\<rparr>;
          headers = [(''Content-Type'', ''application/json''), (''X-Webhook-Event'', event)];
          signed = (if truthy (secret webhook)
                    then headers @
                      [(''X-Webhook-Signature'', hmac (the (secret webhook)) (stringify payload))]
                    else headers)
      in \<lparr>req_url = url webhook, req_headers = signed, req_body = stringify payload\<rparr>)"

section \<open>Sending messages (services/whatsapp.service, controllers/message.controller)\<close>

text \<open>
  The messaging client is outside the program. \<open>'c\<close> is its state; \<open>ready\<close> says whether
  the service holds \<^verbatim>\<open>isReady\<close> (the client's events set and clear it); \<open>clientSend\<close> is
  \<^verbatim>\<open>client.sendMessage\<close>, which gives the serialized id of the message or throws an error
  with a message; \<open>elapse\<close> is what happens to the client while the service sleeps;
  \<open>uuidv4\<close> and \<open>clock\<close> give the id and the time stamp of a result.
\<close>

record 'c driver =
  ready :: "'c \<Rightarrow> bool"
  clientSend :: "'c \<Rightarrow> string \<Rightarrow> string \<Rightarrow> 'c \<times> (string + string)"
  elapse :: "nat \<Rightarrow> 'c \<Rightarrow> 'c"
  uuidv4 :: "'c \<Rightarrow> string"
  clock :: "'c \<Rightarrow> int"

text \<open>What the service has done to the outside, in order: a call of
  \<^verbatim>\<open>client.sendMessage\<close> with its two arguments, or a sleep of so many milliseconds.\<close>

datatype io = Sent string string | Slept nat

fun is_sleep :: "io \<Rightarrow> bool" where
  "is_sleep (Sent to message) = False"
| "is_sleep (Slept ms) = True"

record 'c outside =
  client :: 'c
  trace :: "io list"

definition formatPhoneNumber :: "string \<Rightarrow> string" where
  "formatPhoneNumber phone =
     (let cleaned = filter (\<lambda>c. List.member ''0123456789'' c) phone;
          suffix = ''@c.us''
      in if length suffix \<le> length cleaned \<and>
            drop (length cleaned - length suffix) cleaned = suffix
         then cleaned else cleaned @ suffix)"

record sent =
  messageId :: string
  whatsappId :: string
  phone :: string
  status :: string
  timestamp :: int

definition msg_not_connected :: string where
  "msg_not_connected = ''WhatsApp no est'' @ [CHR 0xC3, CHR 0xA1] @ '' conectado''"

text \<open>\<^verbatim>\<open>sendMessage\<close>: \<open>Inl\<close> is the message of the error it throws.\<close>

definition sendMessage ::
  "'c driver \<Rightarrow> string \<Rightarrow> string \<Rightarrow> 'c outside \<Rightarrow> 'c outside \<times> (string + sent)" where
  "sendMessage drv to message w =
     (if \<not> ready drv (client w) then (w, Inl msg_not_connected)
      else
        (let formattedPhone = formatPhoneNumber to;
             newId = uuidv4 drv (client w);
             (c, result) = clientSend drv (client w) formattedPhone message;
             w' = w\<lparr>client := c, trace := trace w @ [Sent formattedPhone message]\<rparr>
         in case result of
              Inl e \<Rightarrow> (w', Inl e)
            | Inr serialized \<Rightarrow>
                (w', Inr \<lparr>messageId = newId, whatsappId = serialized, phone = to,
                          status = ''sent'', timestamp = clock drv c\<rparr>)))"

definition sleep :: "'c driver \<Rightarrow> nat \<Rightarrow> 'c outside \<Rightarrow> 'c outside" where
  "sleep drv ms w = w\<lparr>client := elapse drv ms (client w), trace := trace w @ [Slept ms]\<rparr>"

text \<open>One entry of the results: \<^verbatim>\<open>{phone, ...result, success: true}\<close> or
  \<^verbatim>\<open>{phone, success: false, error}\<close>.\<close>

datatype bulk_result = Delivered string sent | Failed string string

fun success :: "bulk_result \<Rightarrow> bool" where
  "success (Delivered p r) = True"
| "success (Failed p e) = False"

fun recipient :: "bulk_result \<Rightarrow> string" where
  "recipient (Delivered p r) = p"
| "recipient (Failed p e) = p"

text \<open>\<^verbatim>\<open>Array.prototype.indexOf\<close>: the first index of the value, or -1.\<close>

definition indexOf :: "'a list \<Rightarrow> 'a \<Rightarrow> int" where
  "indexOf xs x = (case findIndex (\<lambda>y. y = x) xs of None \<Rightarrow> - 1 | Some i \<Rightarrow> int i)"

text \<open>
  The loop of \<^verbatim>\<open>sendBulkMessages\<close> over the recipients still to come; \<open>recipients\<close> is the
  whole array, which the test before the sleep reads.
\<close>

fun bulk_loop ::
  "'c driver \<Rightarrow> string list \<Rightarrow> string \<Rightarrow> nat \<Rightarrow> string list \<Rightarrow> 'c outside \<Rightarrow> bulk_result list \<Rightarrow>
     'c outside \<times> bulk_result list" where
  "bulk_loop drv recipients message delay [] w results = (w, results)"
| "bulk_loop drv recipients message delay (to # rest) w results =
     (let (w1, r) = sendMessage drv to message w;
          results1 = results @ [case r of Inr result \<Rightarrow> Delivered to result
                                        | Inl e \<Rightarrow> Failed to e];
          w2 = (if indexOf recipients to < int (length recipients) - 1
                then sleep drv delay w1 else w1)
      in bulk_loop drv recipients message delay rest w2 results1)"

text \<open>\<^verbatim>\<open>options.delay || 2000\<close>: no delay and the delay 0 give 2000.\<close>

definition sendBulkMessages ::
  "'c driver \<Rightarrow> string list \<Rightarrow> string \<Rightarrow> nat option \<Rightarrow> 'c outside \<Rightarrow>
     'c outside \<times> bulk_result list" where
  "sendBulkMessages drv recipients message delay w =
     bulk_loop drv recipients message
       (case delay of None \<Rightarrow> 2000 | Some ms \<Rightarrow> if ms = 0 then 2000 else ms)
       recipients w []"

text \<open>The data of the controller's answer; its property \<^verbatim>\<open>total\<close> is \<open>total_sent\<close> here.\<close>

record bulk_summary =
  total_sent :: nat
  successful :: nat
  failed :: nat
  results :: "bulk_result list"

definition sendBulkMessages_controller ::
  "'c driver \<Rightarrow> string list \<Rightarrow> string \<Rightarrow> nat option \<Rightarrow> 'c outside \<Rightarrow> 'c outside \<times> bulk_summary" where
  "sendBulkMessages_controller drv recipients message delay w =
     (let (w', rs) = sendBulkMessages drv recipients message delay w
      in (w', \<lparr>total_sent = length recipients,
                successful = length (filter (\<lambda>r. success r) rs),
                failed = length (filter (\<lambda>r. \<not> success r) rs),
                results = rs\<rparr>))"

text \<open>
  A client used to instantiate the theorems below: it is always ready, it refuses the one
  number 573009876543 and accepts every other, and nothing happens to it while the
  service sleeps.
\<close>

definition sample_driver :: "unit driver" where
  "sample_driver =
     \<lparr>ready = (\<lambda>c. True),
      clientSend = (\<lambda>c to message.
         (c, if to = ''573009876543@c.us'' then Inl ''invalid wid''
             else Inr (''true_'' @ to @ ''_3EB0''))),
      elapse = (\<lambda>ms c. c),
      uuidv4 = (\<lambda>c. ''550e8400-e29b-41d4-a716-446655440000''),
      clock = (\<lambda>c. 1700000000000)\<rparr>"

text \<open>
  A second client, which counts the messages it has been given: it is always ready and
  it refuses the second message, whatever the number, and accepts every other.
\<close>

definition sample_counting_driver :: "nat driver" where
  "sample_counting_driver =
     \<lparr>ready = (\<lambda>c. True),
      clientSend = (\<lambda>c to message.
         (Suc c, if c = 1 then Inl ''rate limit''
                 else Inr (''true_'' @ to @ ''_3EB0''))),
      elapse = (\<lambda>ms c. c),
      uuidv4 = (\<lambda>c. ''550e8400-e29b-41d4-a716-446655440000''),
      clock = (\<lambda>c. 1700000000000)\<rparr>"

section \<open>Basic facts about the key service\<close>

lemma findIndex_Some_less: "findIndex P xs = Some i \<Longrightarrow> i < length xs"
  by (induction xs arbitrary: i) (auto split: if_splits)

lemma findIndex_Some_sat: "findIndex P xs = Some i \<Longrightarrow> P (xs ! i)"
  by (induction xs arbitrary: i) (auto split: if_splits)

lemma findIndex_None_iff: "findIndex P xs = None \<longleftrightarrow> (\<forall>x \<in> set xs. \<not> P x)"
  by (induction xs) auto

lemma map_list_update_same: "i < length xs \<Longrightarrow> f v = f (xs ! i) \<Longrightarrow> map f (xs[i := v]) = map f xs"
  by (simp add: map_update list_update_same_conv)

section \<open>Update touches four fields and the update stamp\<close>

text \<open>
  Claim C7. For every id and every updates object, \<open>updateApiKey\<close> leaves the key
  (the secret), the id, the active flag, the usage count, the creation and last-use
  instants and the revocation and regeneration stamps of every stored record as they
  were, and neither adds nor removes a record, whatever the caller passes.
\<close>

theorem updateApiKey_frame:
  "map key (keys (fst (updateApiKey i u now data))) = map key (keys data) \<and>
   map id_key (keys (fst (updateApiKey i u now data))) = map id_key (keys data) \<and>
   map active (keys (fst (updateApiKey i u now data))) = map active (keys data) \<and>
   map usageCount (keys (fst (updateApiKey i u now data))) = map usageCount (keys data) \<and>
   map createdAt (keys (fst (updateApiKey i u now data))) = map createdAt (keys data) \<and>
   map lastUsedAt (keys (fst (updateApiKey i u now data))) = map lastUsedAt (keys data) \<and>
   map revokedAt (keys (fst (updateApiKey i u now data))) = map revokedAt (keys data) \<and>
   map regeneratedAt (keys (fst (updateApiKey i u now data))) = map regeneratedAt (keys data)"
proof (cases "findIndex (\<lambda>k. id_key k = i) (keys data)")
  case None
  then show ?thesis by (simp add: updateApiKey_def)
next
  case (Some keyIndex)
  then have less: "keyIndex < length (keys data)" by (rule findIndex_Some_less)
  have frame: "key (apply_updates u k) = key k" "id_key (apply_updates u k) = id_key k"
    "active (apply_updates u k) = active k" "usageCount (apply_updates u k) = usageCount k"
    "createdAt (apply_updates u k) = createdAt k" "lastUsedAt (apply_updates u k) = lastUsedAt k"
    "revokedAt (apply_updates u k) = revokedAt k"
    "regeneratedAt (apply_updates u k) = regeneratedAt k" for k
    by (simp_all add: apply_updates_def Let_def split: option.splits)
  from Some less show ?thesis
    by (simp add: updateApiKey_def Let_def map_list_update_same frame)
qed

section \<open>Defaults of a new key\<close>

text \<open>
  Claim C10. When \<open>createApiKey\<close> gets no permissions, the new record holds the
  wildcard alone, and \<open>requirePermission\<close> lets it pass whatever is required; with no
  name the record is called \<^verbatim>\<open>API Key\<close>, and with no description its description is the
  empty string. The record returned is the one appended to the store.
\<close>

theorem createApiKey_defaults:
  "permissions (snd (createApiKey (options\<lparr>opt_permissions := None\<rparr>) uuid bytes now data)) = [''*''] \<and>
   requirePermission req
     (Some (StoredKey (snd (createApiKey (options\<lparr>opt_permissions := None\<rparr>) uuid bytes now data)))) = Next () \<and>
   name (snd (createApiKey (options\<lparr>opt_name := None\<rparr>) uuid bytes now data)) = ''API Key'' \<and>
   description (snd (createApiKey (options\<lparr>opt_description := None\<rparr>) uuid bytes now data)) = '''' \<and>
   keys (fst (createApiKey options uuid bytes now data)) =
     keys data @ [snd (createApiKey options uuid bytes now data)]"
  by (simp add: createApiKey_def Let_def or_permissions_def or_string_def requirePermission_def)

section \<open>Validation fails the same way for unknown, revoked and expired keys\<close>

lemma distinct_key_unique:
  assumes "distinct (map key ks)" "a \<in> set ks" "b \<in> set ks" "key a = key b"
  shows "a = b"
  using assms by (meson distinct_map inj_onD)

lemma validateApiKey_fails:
  assumes nm: "\<not> is_master_key masterKey apiKey"
    and dist: "distinct (map key (keys data))"
    and cases: "(\<forall>k \<in> set (keys data). key k \<noteq> apiKey) \<or>
         (\<exists>k \<in> set (keys data). key k = apiKey \<and> \<not> active k) \<or>
         (\<exists>k \<in> set (keys data). key k = apiKey \<and> isExpired (expiresAt k) now)"
  shows "validateApiKey masterKey apiKey now data = (data, None)"
proof (cases "findIndex (\<lambda>k. key k = apiKey \<and> active k) (keys data)")
  case None
  with nm show ?thesis by (simp add: validateApiKey_def)
next
  case (Some i)
  let ?found = "keys data ! i"
  from Some have less: "i < length (keys data)" by (rule findIndex_Some_less)
  then have mem: "?found \<in> set (keys data)" by simp
  from Some have sat: "key ?found = apiKey \<and> active ?found"
    by (rule findIndex_Some_sat)
  from cases have "isExpired (expiresAt ?found) now"
  proof (elim disjE)
    assume "\<forall>k \<in> set (keys data). key k \<noteq> apiKey"
    with mem sat show ?thesis by blast
  next
    assume "\<exists>k \<in> set (keys data). key k = apiKey \<and> \<not> active k"
    then obtain k where k: "k \<in> set (keys data)" "key k = apiKey" "\<not> active k" by blast
    with dist mem sat have "k = ?found" by (auto intro: distinct_key_unique)
    with k sat show ?thesis by simp
  next
    assume "\<exists>k \<in> set (keys data). key k = apiKey \<and> isExpired (expiresAt k) now"
    then obtain k where k: "k \<in> set (keys data)" "key k = apiKey" "isExpired (expiresAt k) now"
      by blast
    with dist mem sat have "k = ?found" by (auto intro: distinct_key_unique)
    with k show ?thesis by simp
  qed
  with nm Some show ?thesis by (simp add: validateApiKey_def Let_def)
qed

lemma sample_store:
  "run m sample_calls =
     \<lparr>keys = [\<lparr>id_key = ''7f3c1a52-0b6e-4d8a-9c11-2e5f40a1b001'',
                 key = ''wapi_010101010101010101010101010101010101010101010101'', name = ''app'', description = '''',
                 permissions = [''*''], active = False, createdAt = 10,
                 expiresAt = NoExpiry, lastUsedAt = None, usageCount = 0,
                 revokedAt = Some 20, updatedAt = None, regeneratedAt = None\<rparr>,
               \<lparr>id_key = ''7f3c1a52-0b6e-4d8a-9c11-2e5f40a1b002'',
                 key = ''wapi_020202020202020202020202020202020202020202020202'', name = ''old'', description = '''',
                 permissions = [''messages:send''], active = True, createdAt = 10,
                 expiresAt = ExpiresAt 50, lastUsedAt = None, usageCount = 0,
                 revokedAt = None, updatedAt = None, regeneratedAt = None\<rparr>]\<rparr>"
  by (simp add: run_def sample_calls_def createApiKey_def revokeApiKey_def Let_def
      generateKey_def toHex_def hex_digit_def or_string_def or_permissions_def or_null_def)

text \<open>
  Claim C1. Let the credential not be the master key and let the stored keys be pairwise
  different. If the credential is the key of no record, or of a record that is not
  active, or of a record whose expiry instant is before now, then \<open>validateApiKey\<close>
  returns null and leaves the store as it was, and \<open>apiKeyAuth\<close> (outside the
  development mode without a master key) answers 403 with the one code
  \<^verbatim>\<open>INVALID_API_KEY\<close> and the one message: the answer does not depend on which of the
  three cases holds.
\<close>

theorem validateApiKey_uniform_failure:
  assumes "\<not> is_master_key (API_KEY env) apiKey"
    and "distinct (map key (keys data))"
    and "(\<forall>k \<in> set (keys data). key k \<noteq> apiKey) \<or>
         (\<exists>k \<in> set (keys data). key k = apiKey \<and> \<not> active k) \<or>
         (\<exists>k \<in> set (keys data). key k = apiKey \<and> isExpired (expiresAt k) now)"
  shows "validateApiKey (API_KEY env) apiKey now data = (data, None) \<and>
         (apiKey \<noteq> [] \<and> (truthy (API_KEY env) \<or> NODE_ENV env \<noteq> Some ''development'') \<longrightarrow>
            apiKeyAuth env (Some apiKey) now data =
              (data, Json 403 msg_invalid ''INVALID_API_KEY'' None))"
proof -
  have fails: "validateApiKey (API_KEY env) apiKey now data = (data, None)"
    using assms by (rule validateApiKey_fails)
  then show ?thesis
    by (auto simp add: apiKeyAuth_def truthy_def)
qed

text \<open>The three cases on the sample store at instant 100: an unknown key, the key of the
  revoked record and the key of the expired record get the same answer.\<close>

theorem validateApiKey_uniform_failure_witness:
  "apiKeyAuth \<lparr>API_KEY = Some ''master'', NODE_ENV = Some ''production''\<rparr>
     (Some ''wapi_ffffffffffffffffffffffffffffffffffffffffffffffff'') 100 (run (Some ''master'') sample_calls) =
     (run (Some ''master'') sample_calls, Json 403 msg_invalid ''INVALID_API_KEY'' None) \<and>
   apiKeyAuth \<lparr>API_KEY = Some ''master'', NODE_ENV = Some ''production''\<rparr>
     (Some ''wapi_010101010101010101010101010101010101010101010101'') 100 (run (Some ''master'') sample_calls) =
     (run (Some ''master'') sample_calls, Json 403 msg_invalid ''INVALID_API_KEY'' None) \<and>
   apiKeyAuth \<lparr>API_KEY = Some ''master'', NODE_ENV = Some ''production''\<rparr>
     (Some ''wapi_020202020202020202020202020202020202020202020202'') 100 (run (Some ''master'') sample_calls) =
     (run (Some ''master'') sample_calls, Json 403 msg_invalid ''INVALID_API_KEY'' None)"
  using
    validateApiKey_uniform_failure [of "\<lparr>API_KEY = Some ''master'', NODE_ENV = Some ''production''\<rparr>"
      "''wapi_ffffffffffffffffffffffffffffffffffffffffffffffff''" "run (Some ''master'') sample_calls" 100]
    validateApiKey_uniform_failure [of "\<lparr>API_KEY = Some ''master'', NODE_ENV = Some ''production''\<rparr>"
      "''wapi_010101010101010101010101010101010101010101010101''" "run (Some ''master'') sample_calls" 100]
    validateApiKey_uniform_failure [of "\<lparr>API_KEY = Some ''master'', NODE_ENV = Some ''production''\<rparr>"
      "''wapi_020202020202020202020202020202020202020202020202''" "run (Some ''master'') sample_calls" 100]
  by (simp add: sample_store is_master_key_def truthy_def)

section \<open>Only a revocation makes a key inactive\<close>

lemma in_set_updateD: "k \<in> set (xs[i := v]) \<Longrightarrow> k = v \<or> k \<in> set xs"
  using set_update_subset_insert [of xs i v] by auto

lemma run_snoc: "run m (calls @ [c]) = perform m c (run m calls)"
  by (simp add: run_def)

lemma perform_inactive_revoked:
  assumes inv: "\<forall>k \<in> set (keys data). \<not> active k \<longrightarrow>
                  (\<exists>t. Revoke (id_key k) t \<in> set calls \<and> revokedAt k = Some t)"
    and mem: "k \<in> set (keys (perform m c data))"
    and off: "\<not> active k"
  shows "\<exists>t. Revoke (id_key k) t \<in> set (calls @ [c]) \<and> revokedAt k = Some t"
proof (cases c)
  case (Create options uuid bytes now)
  with mem off have "k \<in> set (keys data)"
    by (auto simp add: createApiKey_def Let_def)
  with inv off show ?thesis by auto
next
  case (Validate apiKey now)
  show ?thesis
  proof (cases "k \<in> set (keys data)")
    case True
    with inv off show ?thesis by auto
  next
    case False
    with mem Validate obtain i where i: "i < length (keys data)"
      and k: "k = (keys data ! i)\<lparr>lastUsedAt := Some now, usageCount := usageCount (keys data ! i) + 1\<rparr>"
      by (auto simp add: validateApiKey_def Let_def split: if_splits option.splits
          dest!: in_set_updateD dest: findIndex_Some_less)
    from i have "keys data ! i \<in> set (keys data)" by simp
    with inv off k show ?thesis by auto
  qed
next
  case (Revoke i now)
  show ?thesis
  proof (cases "k \<in> set (keys data)")
    case True
    with inv off show ?thesis by auto
  next
    case False
    with mem Revoke obtain n where n: "findIndex (\<lambda>k. id_key k = i) (keys data) = Some n"
      and k: "k = (keys data ! n)\<lparr>active := False, revokedAt := Some now\<rparr>"
      by (auto simp add: revokeApiKey_def split: option.splits dest!: in_set_updateD)
    from n have "id_key (keys data ! n) = i" by (rule findIndex_Some_sat)
    with k Revoke show ?thesis by auto
  qed
next
  case (Activate i)
  show ?thesis
  proof (cases "k \<in> set (keys data)")
    case True
    with inv off show ?thesis by auto
  next
    case False
    with mem Activate off show ?thesis
      by (auto simp add: activateApiKey_def split: option.splits dest!: in_set_updateD)
  qed
next
  case (Delete i)
  with mem have "k \<in> set (keys data)"
    by (auto simp add: deleteApiKey_def split: option.splits dest: in_set_takeD in_set_dropD)
  with inv off show ?thesis by auto
next
  case (Update i u now)
  show ?thesis
  proof (cases "k \<in> set (keys data)")
    case True
    with inv off show ?thesis by auto
  next
    case False
    with mem Update obtain n where n: "n < length (keys data)"
      and k: "k = (apply_updates u (keys data ! n))\<lparr>updatedAt := Some now\<rparr>"
      by (auto simp add: updateApiKey_def Let_def split: option.splits
          dest!: in_set_updateD dest: findIndex_Some_less)
    have same: "active k = active (keys data ! n)" "id_key k = id_key (keys data ! n)"
      "revokedAt k = revokedAt (keys data ! n)"
      using k by (simp_all add: apply_updates_def Let_def split: option.splits)
    from n have "keys data ! n \<in> set (keys data)" by simp
    with inv off same show ?thesis by auto
  qed
next
  case (Regenerate i bytes now)
  show ?thesis
  proof (cases "k \<in> set (keys data)")
    case True
    with inv off show ?thesis by auto
  next
    case False
    with mem Regenerate obtain n where n: "n < length (keys data)"
      and k: "k = (keys data ! n)\<lparr>key := generateKey bytes, regeneratedAt := Some now\<rparr>"
      by (auto simp add: regenerateApiKey_def Let_def split: option.splits
          dest!: in_set_updateD dest: findIndex_Some_less)
    from n have "keys data ! n \<in> set (keys data)" by simp
    with inv off k show ?thesis by auto
  qed
qed

lemma run_inactive_revoked:
  "\<forall>k \<in> set (keys (run m calls)). \<not> active k \<longrightarrow>
     (\<exists>t. Revoke (id_key k) t \<in> set calls \<and> revokedAt k = Some t)"
proof (induction calls rule: rev_induct)
  case Nil
  show ?case by (simp add: run_def)
next
  case (snoc c calls)
  show ?case
    unfolding run_snoc using perform_inactive_revoked [OF snoc] by blast
qed

lemma validateApiKey_active:
  "map active (keys (fst (validateApiKey m apiKey now data))) = map active (keys data)"
  by (auto simp add: validateApiKey_def Let_def map_list_update_same
      split: option.splits dest: findIndex_Some_less)

text \<open>
  Claim C3. In the store reached by any history of calls, a record that is not active
  carries a revocation instant, and the history holds the \<open>Revoke\<close> call for its id made
  at that instant. \<open>validateApiKey\<close>, which is where expiry is evaluated, leaves the active
  flag of every record as it was. Where the stored keys are pairwise different and the
  credential is not the master key, validating the key of an active record whose expiry
  instant has passed returns null and leaves the store unchanged.
\<close>

theorem inactive_only_by_revoke:
  "(\<forall>k \<in> set (keys (run m calls)). \<not> active k \<longrightarrow>
      (\<exists>t. Revoke (id_key k) t \<in> set calls \<and> revokedAt k = Some t)) \<and>
   map active (keys (fst (validateApiKey m apiKey now (run m calls)))) =
     map active (keys (run m calls)) \<and>
   (\<forall>k \<in> set (keys (run m calls)).
      key k = apiKey \<and> active k \<and> isExpired (expiresAt k) now \<and>
      \<not> is_master_key m apiKey \<and> distinct (map key (keys (run m calls))) \<longrightarrow>
      validateApiKey m apiKey now (run m calls) = (run m calls, None))"
proof (intro conjI)
  show "\<forall>k \<in> set (keys (run m calls)). \<not> active k \<longrightarrow>
      (\<exists>t. Revoke (id_key k) t \<in> set calls \<and> revokedAt k = Some t)"
    by (rule run_inactive_revoked)
  show "map active (keys (fst (validateApiKey m apiKey now (run m calls)))) =
     map active (keys (run m calls))"
    by (rule validateApiKey_active)
  show "\<forall>k \<in> set (keys (run m calls)).
      key k = apiKey \<and> active k \<and> isExpired (expiresAt k) now \<and>
      \<not> is_master_key m apiKey \<and> distinct (map key (keys (run m calls))) \<longrightarrow>
      validateApiKey m apiKey now (run m calls) = (run m calls, None)"
    by (blast intro: validateApiKey_fails)
qed

text \<open>On the sample store: the first record is inactive and was revoked at instant 20 by
  the call in the history; the second is active and expired at instant 100, and
  validating its key fails without touching the store.\<close>

theorem inactive_only_by_revoke_witness:
  "\<not> active (keys (run (Some ''master'') sample_calls) ! 0) \<and>
   Revoke (id_key (keys (run (Some ''master'') sample_calls) ! 0)) 20 \<in> set sample_calls \<and>
   revokedAt (keys (run (Some ''master'') sample_calls) ! 0) = Some 20 \<and>
   active (keys (run (Some ''master'') sample_calls) ! 1) \<and>
   isExpired (expiresAt (keys (run (Some ''master'') sample_calls) ! 1)) 100 \<and>
   validateApiKey (Some ''master'') ''wapi_020202020202020202020202020202020202020202020202'' 100 (run (Some ''master'') sample_calls) =
     (run (Some ''master'') sample_calls, None)"
  using inactive_only_by_revoke [of "Some ''master''" sample_calls "''wapi_020202020202020202020202020202020202020202020202''" 100]
  by (simp add: sample_store is_master_key_def)

section \<open>Regenerating a key\<close>

lemma findIndex_only:
  assumes "n < length xs" and "\<forall>j < length xs. j \<noteq> n \<longrightarrow> \<not> P (xs ! j)"
  shows "findIndex P xs = (if P (xs ! n) then Some n else None)"
proof (cases "findIndex P xs")
  case None
  with assms(1) show ?thesis by (auto simp add: findIndex_None_iff)
next
  case (Some j)
  then have "j < length xs" "P (xs ! j)"
    by (auto dest: findIndex_Some_less findIndex_Some_sat)
  with assms(2) have "j = n" by blast
  with Some \<open>P (xs ! j)\<close> show ?thesis by simp
qed

lemma regenerateApiKey_keys:
  assumes "findIndex (\<lambda>k. id_key k = i) (keys data) = Some n"
  shows "keys (fst (regenerateApiKey i bytes now data)) =
           (keys data)[n := (keys data ! n)\<lparr>key := generateKey bytes, regeneratedAt := Some now\<rparr>]"
    and "snd (regenerateApiKey i bytes now data) = Success (generateKey bytes)"
  using assms by (simp_all add: regenerateApiKey_def Let_def)

text \<open>
  Claim C2, as the code has it. Let the record with id \<open>i\<close> stand at position \<open>n\<close> with the
  secret \<open>old\<close>, let the stored secrets be pairwise different, let the generated secret
  \<open>new\<close> be none of them, and let neither secret be the master key. Then
  \<open>regenerateApiKey\<close> returns \<open>new\<close>; validating \<open>old\<close> afterwards returns null at any
  instant; validating \<open>new\<close> succeeds exactly when the record is active and not expired
  (regenerating neither activates a record nor moves its expiry); every record keeps
  its id; the listing without \<^verbatim>\<open>includeKey\<close> shows each key masked; the stored record
  itself holds \<open>new\<close> in full; and the listing with \<^verbatim>\<open>includeKey\<close> shows every stored key
  in full.
\<close>

theorem regenerateApiKey_swaps_secret:
  fixes i :: string and bytes :: "8 word list" and now :: int and data :: keystore and n :: nat
  defines "data' \<equiv> fst (regenerateApiKey i bytes now data)"
    and "old \<equiv> key (keys data ! n)"
    and "new \<equiv> generateKey bytes"
  assumes found: "findIndex (\<lambda>k. id_key k = i) (keys data) = Some n"
    and fresh: "new \<notin> set (map key (keys data))"
    and dist: "distinct (map key (keys data))"
    and nm_old: "\<not> is_master_key m old"
    and nm_new: "\<not> is_master_key m new"
  shows "snd (regenerateApiKey i bytes now data) = Success new \<and>
         validateApiKey m old t data' = (data', None) \<and>
         snd (validateApiKey m new t data') =
           (if active (keys data ! n) \<and> \<not> isExpired (expiresAt (keys data ! n)) t
            then Some (StoredKey ((keys data ! n)\<lparr>key := new, regeneratedAt := Some now,
                         lastUsedAt := Some t, usageCount := usageCount (keys data ! n) + 1\<rparr>))
            else None) \<and>
         map id_key (keys data') = map id_key (keys data) \<and>
         id_key (keys data' ! n) = i \<and>
         map view_key (listApiKeys False data') = map (\<lambda>k. mask_key (key k)) (keys data') \<and>
         key (keys data' ! n) = new \<and>
         map view_key (listApiKeys True data') = map key (keys data')"
proof -
  let ?r = "keys data ! n"
  let ?r' = "?r\<lparr>key := new, regeneratedAt := Some now\<rparr>"
  from found have n: "n < length (keys data)" by (rule findIndex_Some_less)
  from found have idn: "id_key ?r = i" by (rule findIndex_Some_sat)
  have ks: "keys data' = (keys data)[n := ?r']"
    unfolding data'_def new_def using found by (rule regenerateApiKey_keys)
  have ret: "snd (regenerateApiKey i bytes now data) = Success new"
    unfolding new_def using found by (rule regenerateApiKey_keys)
  have other: "key (keys data' ! j) \<noteq> old \<and> key (keys data' ! j) \<noteq> new"
    if "j < length (keys data')" "j \<noteq> n" for j
  proof -
    from that ks have j: "j < length (keys data)" "keys data' ! j = keys data ! j" by simp_all
    from dist j(1) n that(2) have "key (keys data ! j) \<noteq> old"
      unfolding old_def by (metis distinct_conv_nth length_map nth_map)
    moreover from fresh j(1) have "key (keys data ! j) \<noteq> new"
      by (metis length_map nth_map nth_mem)
    ultimately show ?thesis using j(2) by simp
  qed
  from fresh n have differ: "new \<noteq> old"
    unfolding old_def by (metis length_map nth_map nth_mem)
  have at_n: "keys data' ! n = ?r'" using ks n by simp
  have len: "n < length (keys data')" using ks n by simp
  have "findIndex (\<lambda>k. key k = old \<and> active k) (keys data') = None"
  proof -
    have "\<forall>j < length (keys data'). j \<noteq> n \<longrightarrow> \<not> (key (keys data' ! j) = old \<and> active (keys data' ! j))"
      using other by blast
    with len have "findIndex (\<lambda>k. key k = old \<and> active k) (keys data') =
        (if key (keys data' ! n) = old \<and> active (keys data' ! n) then Some n else None)"
      by (rule findIndex_only)
    with at_n differ show ?thesis by simp
  qed
  with nm_old have v_old: "validateApiKey m old t data' = (data', None)"
    by (simp add: validateApiKey_def)
  have "findIndex (\<lambda>k. key k = new \<and> active k) (keys data') =
        (if key (keys data' ! n) = new \<and> active (keys data' ! n) then Some n else None)"
  proof (rule findIndex_only [OF len])
    show "\<forall>j < length (keys data'). j \<noteq> n \<longrightarrow> \<not> (key (keys data' ! j) = new \<and> active (keys data' ! j))"
      using other by blast
  qed
  with at_n have "findIndex (\<lambda>k. key k = new \<and> active k) (keys data') =
        (if active ?r then Some n else None)" by simp
  with nm_new at_n have v_new: "snd (validateApiKey m new t data') =
           (if active ?r \<and> \<not> isExpired (expiresAt ?r) t
            then Some (StoredKey (?r\<lparr>key := new, regeneratedAt := Some now,
                         lastUsedAt := Some t, usageCount := usageCount ?r + 1\<rparr>))
            else None)"
    by (simp add: validateApiKey_def Let_def)
  have ids: "map id_key (keys data') = map id_key (keys data)"
    using ks n by (simp add: map_list_update_same)
  have idn': "id_key (keys data' ! n) = i" using at_n idn by simp
  have listing: "map view_key (listApiKeys False data') = map (\<lambda>k. mask_key (key k)) (keys data')"
    by (simp add: listApiKeys_def comp_def)
  have stored: "key (keys data' ! n) = new" using at_n by simp
  have full: "map view_key (listApiKeys True data') = map key (keys data')"
    by (simp add: listApiKeys_def comp_def)
  from ret v_old v_new ids idn' listing stored full show ?thesis by blast
qed

text \<open>
  On the sample store, the revoked first key is regenerated at instant 30 with fresh
  random bytes. The call returns the new secret, yet validating the new secret at instant
  100 returns null, because the record is still revoked; and the stored document holds
  the new secret in full, as does the listing with \<^verbatim>\<open>includeKey\<close>.
\<close>

theorem regenerateApiKey_counterexample:
  "snd (regenerateApiKey ''7f3c1a52-0b6e-4d8a-9c11-2e5f40a1b001''
          [0x07, 0x07, 0x07, 0x07, 0x07, 0x07, 0x07, 0x07, 0x07, 0x07, 0x07, 0x07,
           0x07, 0x07, 0x07, 0x07, 0x07, 0x07, 0x07, 0x07, 0x07, 0x07, 0x07, 0x07]
          30 (run (Some ''master'') sample_calls)) =
     Success ''wapi_070707070707070707070707070707070707070707070707'' \<and>
   snd (validateApiKey (Some ''master'')
          ''wapi_070707070707070707070707070707070707070707070707'' 100
          (fst (regenerateApiKey ''7f3c1a52-0b6e-4d8a-9c11-2e5f40a1b001''
             [0x07, 0x07, 0x07, 0x07, 0x07, 0x07, 0x07, 0x07, 0x07, 0x07, 0x07, 0x07,
              0x07, 0x07, 0x07, 0x07, 0x07, 0x07, 0x07, 0x07, 0x07, 0x07, 0x07, 0x07]
             30 (run (Some ''master'') sample_calls)))) = None \<and>
   map key (keys (fst (regenerateApiKey ''7f3c1a52-0b6e-4d8a-9c11-2e5f40a1b001''
          [0x07, 0x07, 0x07, 0x07, 0x07, 0x07, 0x07, 0x07, 0x07, 0x07, 0x07, 0x07,
           0x07, 0x07, 0x07, 0x07, 0x07, 0x07, 0x07, 0x07, 0x07, 0x07, 0x07, 0x07]
          30 (run (Some ''master'') sample_calls)))) =
     [''wapi_070707070707070707070707070707070707070707070707'',
      ''wapi_020202020202020202020202020202020202020202020202''] \<and>
   map view_key (listApiKeys True (fst (regenerateApiKey ''7f3c1a52-0b6e-4d8a-9c11-2e5f40a1b001''
          [0x07, 0x07, 0x07, 0x07, 0x07, 0x07, 0x07, 0x07, 0x07, 0x07, 0x07, 0x07,
           0x07, 0x07, 0x07, 0x07, 0x07, 0x07, 0x07, 0x07, 0x07, 0x07, 0x07, 0x07]
          30 (run (Some ''master'') sample_calls)))) =
     [''wapi_070707070707070707070707070707070707070707070707'',
      ''wapi_020202020202020202020202020202020202020202020202'']"
  by (simp add: sample_store regenerateApiKey_def validateApiKey_def is_master_key_def
      listApiKeys_def generateKey_def toHex_def hex_digit_def Let_def)

text \<open>
  The amended statement on the sample store, for the second key (active, expiring at
  instant 50): after it is regenerated at instant 30 the old secret fails, the new secret
  validates at instant 40 and fails at instant 100, and the listing shows the masked
  form.
\<close>

theorem regenerateApiKey_swaps_secret_witness:
  "validateApiKey (Some ''master'') ''wapi_020202020202020202020202020202020202020202020202'' 40
     (fst (regenerateApiKey ''7f3c1a52-0b6e-4d8a-9c11-2e5f40a1b002''
        [0x07, 0x07, 0x07, 0x07, 0x07, 0x07, 0x07, 0x07, 0x07, 0x07, 0x07, 0x07,
         0x07, 0x07, 0x07, 0x07, 0x07, 0x07, 0x07, 0x07, 0x07, 0x07, 0x07, 0x07]
        30 (run (Some ''master'') sample_calls))) =
     (fst (regenerateApiKey ''7f3c1a52-0b6e-4d8a-9c11-2e5f40a1b002''
        [0x07, 0x07, 0x07, 0x07, 0x07, 0x07, 0x07, 0x07, 0x07, 0x07, 0x07, 0x07,
         0x07, 0x07, 0x07, 0x07, 0x07, 0x07, 0x07, 0x07, 0x07, 0x07, 0x07, 0x07]
        30 (run (Some ''master'') sample_calls)), None) \<and>
   snd (validateApiKey (Some ''master'') ''wapi_070707070707070707070707070707070707070707070707'' 40
     (fst (regenerateApiKey ''7f3c1a52-0b6e-4d8a-9c11-2e5f40a1b002''
        [0x07, 0x07, 0x07, 0x07, 0x07, 0x07, 0x07, 0x07, 0x07, 0x07, 0x07, 0x07,
         0x07, 0x07, 0x07, 0x07, 0x07, 0x07, 0x07, 0x07, 0x07, 0x07, 0x07, 0x07]
        30 (run (Some ''master'') sample_calls)))) \<noteq> None \<and>
   map view_key (listApiKeys False
     (fst (regenerateApiKey ''7f3c1a52-0b6e-4d8a-9c11-2e5f40a1b002''
        [0x07, 0x07, 0x07, 0x07, 0x07, 0x07, 0x07, 0x07, 0x07, 0x07, 0x07, 0x07,
         0x07, 0x07, 0x07, 0x07, 0x07, 0x07, 0x07, 0x07, 0x07, 0x07, 0x07, 0x07]
        30 (run (Some ''master'') sample_calls)))) =
     [''wapi_0101010...0101'', ''wapi_0707070...0707'']"
  using regenerateApiKey_swaps_secret [where i = "''7f3c1a52-0b6e-4d8a-9c11-2e5f40a1b002''"
      and data = "run (Some ''master'') sample_calls" and n = 1
      and bytes = "[0x07, 0x07, 0x07, 0x07, 0x07, 0x07, 0x07, 0x07, 0x07, 0x07, 0x07, 0x07,
        0x07, 0x07, 0x07, 0x07, 0x07, 0x07, 0x07, 0x07, 0x07, 0x07, 0x07, 0x07]"
      and m = "Some ''master''" and now = 30 and t = 40]
  by (simp add: sample_store is_master_key_def generateKey_def toHex_def hex_digit_def
      regenerateApiKey_def Let_def mask_key_def)

section \<open>Publishing an event\<close>

lemma handlers_of_on:
  "handlers_of (on event h hs) event' =
     (if event' = event then handlers_of hs event @ [h] else handlers_of hs event')"
  by (auto simp add: handlers_of_def on_def Let_def split: option.splits)

lemma handlers_of_none: "handlers_of (\<lambda>event. None) event' = []"
  by (simp add: handlers_of_def)

lemma forEach_append:
  "forEach (hs @ hs') d w =
     (case forEach hs d w of
        (w', Some e) \<Rightarrow> (w', Some e)
      | (w', None) \<Rightarrow> forEach hs' d w')"
  by (induction hs arbitrary: w) (auto split: prod.splits option.splits)

lemma forEach_no_throw:
  "\<forall>h \<in> set hs. \<forall>x v. snd (h x v) = None \<Longrightarrow>
     forEach hs d w = (foldl (\<lambda>v h. fst (h d v)) w hs, None)"
proof (induction hs arbitrary: w)
  case Nil
  show ?case by simp
next
  case (Cons h hs)
  from Cons.prems have "snd (h d w) = None" by simp
  then obtain w' where h: "h d w = (w', None)" by (cases "h d w") simp
  from Cons.prems have "\<forall>h \<in> set hs. \<forall>x v. snd (h x v) = None" by simp
  then have "forEach hs d w' = (foldl (\<lambda>v h. fst (h d v)) w' hs, None)" by (rule Cons.IH)
  with h show ?case by simp
qed

lemma forward_returns: "snd (forward webhookId event d w) = None"
  by (simp add: forward_def split: option.splits)

lemma subscribe_quiet:
  assumes "\<forall>e. \<forall>g \<in> set (handlers_of hs e). \<forall>x u. snd (g x u) = None"
  shows "\<forall>e. \<forall>g \<in> set (handlers_of
            (foldl (\<lambda>hs event. on event (forward webhookId event) hs) hs es) e).
           \<forall>x u. snd (g x u) = None"
  using assms
proof (induction es arbitrary: hs)
  case Nil
  then show ?case by simp
next
  case (Cons event es)
  have "\<forall>e. \<forall>g \<in> set (handlers_of (on event (forward webhookId event) hs) e).
          \<forall>x u. snd (g x u) = None"
    using Cons.prems by (auto simp add: handlers_of_on forward_returns)
  then show ?case
    using Cons.IH by simp
qed

lemma register_quiet:
  assumes "\<forall>e. \<forall>g \<in> set (handlers_of (snd st) e). \<forall>x u. snd (g x u) = None"
  shows "\<forall>e. \<forall>g \<in> set (handlers_of (snd (fst (register isURL body now st))) e).
           \<forall>x u. snd (g x u) = None"
proof (cases "snd (register isURL body now st)")
  case (Invalid errors)
  then have same: "fst (register isURL body now st) = st"
    by (cases "body_url body"; cases "body_events body")
      (auto simp add: register_def Let_def split: if_splits)
  show ?thesis unfolding same by (rule assms)
next
  case (Created i u es)
  then have subscribed: "snd (fst (register isURL body now st)) =
      foldl (\<lambda>hs event. on event (forward (''wh_'' @ decimal now) event) hs) (snd st)
        (the (body_events body))"
    by (auto simp add: register_def Let_def split: if_splits)
  show ?thesis
    unfolding subscribed using assms by (rule subscribe_quiet)
qed

text \<open>
  Claim C4, as the code has it. A subscriber registered with \<open>on\<close> is called by \<open>emit\<close>
  after all the subscribers registered before it for that event, inside the call of
  \<open>emit\<close>, in the world they left, and only if none of them threw: an exception thrown
  by a subscriber leaves \<open>emit\<close> at once. The forwarding callback of a webhook never
  throws, and the register route subscribes nothing else: if no subscriber throws before
  a registration, none does after it. Where no subscriber of the event throws, \<open>emit\<close>
  calls every one of them in the order of registration and returns. Registering a
  subscriber for one event changes nothing for the publication of any other event.
\<close>

theorem emit_in_registration_order:
  "emit (on event h hs) event d w =
     (case emit hs event d w of
        (w', Some e) \<Rightarrow> (w', Some e)
      | (w', None) \<Rightarrow> h d w') \<and>
   snd (forward webhookId event d' v) = None \<and>
   ((\<forall>g \<in> set (handlers_of hs event). \<forall>x u. snd (g x u) = None) \<longrightarrow>
      emit hs event d w = (foldl (\<lambda>u g. fst (g d u)) w (handlers_of hs event), None)) \<and>
   ((\<forall>e. \<forall>g \<in> set (handlers_of (snd st) e). \<forall>x u. snd (g x u) = None) \<longrightarrow>
      (\<forall>e. \<forall>g \<in> set (handlers_of (snd (fst (register isURL body now st))) e).
         \<forall>x u. snd (g x u) = None)) \<and>
   emit (on event h hs) event' d w =
     (if event' = event then emit (on event h hs) event d w else emit hs event' d w)"
proof (intro conjI impI)
  show "emit (on event h hs) event d w =
     (case emit hs event d w of
        (w', Some e) \<Rightarrow> (w', Some e)
      | (w', None) \<Rightarrow> h d w')"
    by (cases "h d (fst (forEach (handlers_of hs event) d w))")
      (auto simp add: emit_def handlers_of_on forEach_append split: prod.splits option.splits)
  show "snd (forward webhookId event d' v) = None"
    by (rule forward_returns)
  show "emit hs event d w = (foldl (\<lambda>u g. fst (g d u)) w (handlers_of hs event), None)"
    if "\<forall>g \<in> set (handlers_of hs event). \<forall>x u. snd (g x u) = None"
    unfolding emit_def using that by (rule forEach_no_throw)
  show "\<forall>e. \<forall>g \<in> set (handlers_of (snd (fst (register isURL body now st))) e).
         \<forall>x u. snd (g x u) = None"
    if "\<forall>e. \<forall>g \<in> set (handlers_of (snd st) e). \<forall>x u. snd (g x u) = None"
    using that by (rule register_quiet)
  show "emit (on event h hs) event' d w =
     (if event' = event then emit (on event h hs) event d w else emit hs event' d w)"
    by (simp add: emit_def handlers_of_on)
qed

text \<open>
  Three subscribers of \<^verbatim>\<open>message\<close> that each write their name to a log; the second one
  throws. \<open>emit\<close> calls the first and the second and ends with the exception: the third
  subscriber, registered after the one that failed, is not called.
\<close>

theorem emit_counterexample:
  "emit (on ''message'' (\<lambda>d log. (log @ [''third''], None))
          (on ''message'' (\<lambda>d log. (log @ [''second''], Some ''boom''))
             (on ''message'' (\<lambda>d log. (log @ [''first''], None)) (\<lambda>event. None))))
        ''message'' () [] =
     ([''first'', ''second''], Some ''boom'')"
  by (simp add: emit_def handlers_of_on handlers_of_none)

text \<open>
  Two registrations for \<^verbatim>\<open>message\<close> made through the register route, the first one with a
  secret: publishing a message calls both forwarding callbacks in the order of
  registration, and each starts its delivery.
\<close>

theorem emit_in_registration_order_witness:
  "map (\<lambda>(webhook, event, d). (url webhook, event, d))
     (started (fst (emit (snd sample_registered) ''message'' ''hello'' (fst sample_registered)))) =
     [(''https://a.example/hook'', ''message'', ''hello''),
      (''https://b.example/hook'', ''message'', ''hello'')] \<and>
   snd (emit (snd sample_registered) ''message'' ''hello'' (fst sample_registered)) = None"
proof -
  have hs: "handlers_of (snd sample_registered) ''message'' =
      [forward ''wh_1700000000001'' ''message'', forward ''wh_1700000000002'' ''message'']"
    by (simp add: sample_registered_def register_def Let_def handlers_of_on handlers_of_none
        decimal.simps)
  have w: "webhooks (fst sample_registered) =
      [''wh_1700000000001'' \<mapsto>
         \<lparr>wh_id = ''wh_1700000000001'', url = ''https://a.example/hook'',
          events = [''message''], secret = Some ''s3cret'',
          wh_createdAt = 1700000000001, wh_active = True\<rparr>,
       ''wh_1700000000002'' \<mapsto>
         \<lparr>wh_id = ''wh_1700000000002'', url = ''https://b.example/hook'',
          events = [''message''], secret = None,
          wh_createdAt = 1700000000002, wh_active = True\<rparr>]"
    "started (fst sample_registered) = []"
    by (simp_all add: sample_registered_def register_def Let_def decimal.simps)
  have quiet: "\<forall>g \<in> set (handlers_of (snd sample_registered) ''message'').
      \<forall>x u. snd (g x u) = None"
    by (simp add: hs forward_returns)
  note order = emit_in_registration_order [of "''message''" "forward ''none'' ''message''"
      "snd sample_registered" "''hello''" "fst sample_registered"]
  have "emit (snd sample_registered) ''message'' ''hello'' (fst sample_registered) =
      (foldl (\<lambda>u g. fst (g ''hello'' u)) (fst sample_registered)
         (handlers_of (snd sample_registered) ''message''), None)"
    by (rule order [THEN conjunct2, THEN conjunct2, THEN conjunct1, THEN mp, OF quiet])
  then show ?thesis
    by (simp add: hs w forward_def)
qed

section \<open>Registering a webhook\<close>

text \<open>
  Claim C5 at the request \<^verbatim>\<open>{url: "https://tuapp.com/webhook", events: ["foo"]}\<close>, with a
  url check that accepts this url: the route answers 201, stores a registration whose
  events are \<^verbatim>\<open>["foo"]\<close> and subscribes a forwarding callback for the event \<^verbatim>\<open>foo\<close>, which
  is not in the vocabulary.
\<close>

theorem register_accepts_unknown_event:
  "snd (register (\<lambda>u. u = ''https://tuapp.com/webhook'')
          \<lparr>body_url = Some ''https://tuapp.com/webhook'', body_events = Some [''foo''],
           body_secret = None\<rparr> 1700000000000
          (\<lparr>webhooks = (\<lambda>i. None), started = []\<rparr>, (\<lambda>event. None))) =
     Created ''wh_1700000000000'' ''https://tuapp.com/webhook'' [''foo''] \<and>
   map_option events
     (webhooks (fst (fst (register (\<lambda>u. u = ''https://tuapp.com/webhook'')
          \<lparr>body_url = Some ''https://tuapp.com/webhook'', body_events = Some [''foo''],
           body_secret = None\<rparr> 1700000000000
          (\<lparr>webhooks = (\<lambda>i. None), started = []\<rparr>, (\<lambda>event. None)))))
        ''wh_1700000000000'') = Some [''foo''] \<and>
   length (handlers_of (snd (fst (register (\<lambda>u. u = ''https://tuapp.com/webhook'')
          \<lparr>body_url = Some ''https://tuapp.com/webhook'', body_events = Some [''foo''],
           body_secret = None\<rparr> 1700000000000
          (\<lparr>webhooks = (\<lambda>i. None), started = []\<rparr>, (\<lambda>event. None))))) ''foo'') = 1"
  by (simp add: register_def Let_def handlers_of_on handlers_of_none decimal.simps)

text \<open>
  What the route does check: it creates a registration exactly when the url passes the
  url check and the events are an array with at least one element; otherwise it answers
  400 and changes nothing.
\<close>

lemma register_checks:
  "(case snd (register isURL body now st) of
      Created i u es \<Rightarrow>
        body_url body = Some u \<and> isURL u \<and> body_events body = Some es \<and> es \<noteq> [] \<and>
        i = ''wh_'' @ decimal now \<and>
        map_option url (webhooks (fst (fst (register isURL body now st))) i) = Some u \<and>
        map_option events (webhooks (fst (fst (register isURL body now st))) i) = Some es
    | Invalid errors \<Rightarrow>
        fst (register isURL body now st) = st \<and> errors \<noteq> [] \<and>
        \<not> ((\<exists>u. body_url body = Some u \<and> isURL u) \<and>
           (\<exists>es. body_events body = Some es \<and> es \<noteq> [])))"
  by (cases "body_url body"; cases "body_events body")
    (auto simp add: register_def Let_def Suc_le_eq)

section \<open>Signing a delivery\<close>

text \<open>
  The request of a delivery carries the header \<^verbatim>\<open>X-Webhook-Signature\<close> exactly when the
  registration has a truthy secret, and its value is the keyed hash, under that secret,
  of the very string sent as the body.
\<close>

lemma sendWebhookNotification_signature:
  "map_of (req_headers (sendWebhookNotification stringify hmac webhook event d now))
     ''X-Webhook-Signature'' =
     (if truthy (secret webhook)
      then Some (hmac (the (secret webhook))
                  (req_body (sendWebhookNotification stringify hmac webhook event d now)))
      else None)"
  by (simp add: sendWebhookNotification_def Let_def)

section \<open>Sending to many recipients\<close>

lemma bulk_loop_append:
  "bulk_loop drv rs m ms (xs @ ys) w acc =
     (case bulk_loop drv rs m ms xs w acc of (w', acc') \<Rightarrow> bulk_loop drv rs m ms ys w' acc')"
  by (induction xs arbitrary: w acc) (simp_all add: Let_def split: prod.splits)

lemma bulk_loop_acc:
  "snd (bulk_loop drv rs m ms xs w acc) = acc @ snd (bulk_loop drv rs m ms xs w [])"
proof (induction xs arbitrary: w acc)
  case Nil
  show ?case by simp
next
  case (Cons x xs)
  show ?case
    by (simp add: Let_def split: prod.splits)
      (metis Cons.IH append.assoc)
qed

lemma bulk_loop_world_acc:
  "fst (bulk_loop drv rs m ms xs w acc) = fst (bulk_loop drv rs m ms xs w [])"
proof (induction xs arbitrary: w acc)
  case Nil
  show ?case by simp
next
  case (Cons x xs)
  show ?case
    by (simp add: Let_def split: prod.splits) (metis Cons.IH)
qed

lemma bulk_loop_recipients:
  "map recipient (snd (bulk_loop drv rs m ms xs w acc)) = map recipient acc @ xs"
  by (induction xs arbitrary: w acc) (simp_all add: Let_def split: prod.splits sum.splits)

lemma bulk_loop_nth:
  assumes "k < length xs"
  shows "snd (bulk_loop drv rs m ms xs w []) ! k =
           (case snd (sendMessage drv (xs ! k) m (fst (bulk_loop drv rs m ms (take k xs) w []))) of
              Inr result \<Rightarrow> Delivered (xs ! k) result
            | Inl e \<Rightarrow> Failed (xs ! k) e)"
proof -
  let ?before = "bulk_loop drv rs m ms (take k xs) w []"
  have len: "length (snd ?before) = k"
    using assms bulk_loop_recipients [of drv rs m ms "take k xs" w "[]"]
    by (metis append_Nil length_map length_take list.simps(8) min.absorb2 less_imp_le)
  from assms have "xs = take k xs @ (xs ! k) # drop (Suc k) xs"
    by (simp add: id_take_nth_drop)
  then have "bulk_loop drv rs m ms xs w [] =
      (case ?before of (w', acc') \<Rightarrow> bulk_loop drv rs m ms ((xs ! k) # drop (Suc k) xs) w' acc')"
    by (metis bulk_loop_append)
  then have "snd (bulk_loop drv rs m ms xs w []) =
      snd (bulk_loop drv rs m ms ((xs ! k) # drop (Suc k) xs) (fst ?before) (snd ?before))"
    by (simp add: case_prod_beta)
  also have "\<dots> = (snd ?before @
      [case snd (sendMessage drv (xs ! k) m (fst ?before)) of
         Inr result \<Rightarrow> Delivered (xs ! k) result | Inl e \<Rightarrow> Failed (xs ! k) e]) @
      snd (bulk_loop drv rs m ms (drop (Suc k) xs)
        (if indexOf rs (xs ! k) < int (length rs) - 1
         then sleep drv ms (fst (sendMessage drv (xs ! k) m (fst ?before)))
         else fst (sendMessage drv (xs ! k) m (fst ?before))) [])"
    by (simp add: Let_def case_prod_beta bulk_loop_acc [where acc = "_ @ _"])
  finally show ?thesis
    using len by (simp add: nth_append)
qed

lemma bulk_loop_world:
  "fst (bulk_loop drv rs m ms xs w acc) =
     foldl (\<lambda>v to. if indexOf rs to < int (length rs) - 1
                     then sleep drv ms (fst (sendMessage drv to m v))
                     else fst (sendMessage drv to m v)) w xs"
  by (induction xs arbitrary: w acc) (simp_all add: Let_def case_prod_beta)

lemma sendMessage_ready_trace:
  "ready drv (client v) \<Longrightarrow>
     trace (fst (sendMessage drv to m v)) = trace v @ [Sent (formatPhoneNumber to) m]"
  by (simp add: sendMessage_def Let_def case_prod_beta split: sum.splits)

lemma bulk_world_sends:
  assumes "\<forall>c. ready drv c"
  shows "filter (\<lambda>e. \<not> is_sleep e)
           (trace (foldl (\<lambda>v to. if indexOf rs to < int (length rs) - 1
                                   then sleep drv ms (fst (sendMessage drv to m v))
                                   else fst (sendMessage drv to m v)) w xs)) =
         filter (\<lambda>e. \<not> is_sleep e) (trace w) @ map (\<lambda>to. Sent (formatPhoneNumber to) m) xs"
proof (induction xs arbitrary: w)
  case Nil
  show ?case by simp
next
  case (Cons x xs)
  from assms have "trace (fst (sendMessage drv x m w)) = trace w @ [Sent (formatPhoneNumber x) m]"
    by (simp add: sendMessage_ready_trace)
  then show ?case
    by (simp add: Cons.IH sleep_def)
qed

text \<open>
  Claim C8. For every list of recipients (of any length, so for 1 to 100),
  \<open>sendBulkMessages\<close> calls \<open>sendMessage\<close> once for every recipient, in the order of the
  list, each call in the world that the calls (and sleeps) for the recipients before it
  have left, whether those calls returned or threw. The world it returns is the one left
  by the call for the last recipient (and the sleep after it, if any); with a client that
  is ready throughout, the calls of \<^verbatim>\<open>client.sendMessage\<close> it has added to the trace are
  exactly one for each recipient, in the order of the list. The results name the
  recipients in that order, one result each: the result at position \<open>k\<close> is the outcome
  of the call for recipient \<open>k\<close>, a call that throws being recorded as \<open>Failed\<close> with the
  recipient and the message of the error. The controller answers with these results and
  the counts of the successful and the failed ones, which add up to the number of
  recipients.
\<close>

theorem sendBulkMessages_outcomes:
  fixes drv :: "'c driver" and recipients :: "string list" and message :: string
    and delay :: "nat option" and w :: "'c outside"
  defines "ms \<equiv> (case delay of None \<Rightarrow> 2000 | Some ms \<Rightarrow> if ms = 0 then 2000 else ms)"
    and "rs \<equiv> snd (sendBulkMessages drv recipients message delay w)"
    and "summary \<equiv> snd (sendBulkMessages_controller drv recipients message delay w)"
  defines "before \<equiv> (\<lambda>k. foldl
      (\<lambda>v to. if indexOf recipients to < int (length recipients) - 1
               then sleep drv ms (fst (sendMessage drv to message v))
               else fst (sendMessage drv to message v)) w (take k recipients))"
  shows "map recipient rs = recipients \<and>
         (\<forall>k < length recipients.
            rs ! k =
              (case snd (sendMessage drv (recipients ! k) message (before k)) of
                 Inr result \<Rightarrow> Delivered (recipients ! k) result
               | Inl e \<Rightarrow> Failed (recipients ! k) e)) \<and>
         fst (sendBulkMessages drv recipients message delay w) = before (length recipients) \<and>
         fst (sendBulkMessages_controller drv recipients message delay w) =
           before (length recipients) \<and>
         ((\<forall>c. ready drv c) \<longrightarrow>
            filter (\<lambda>e. \<not> is_sleep e) (trace (fst (sendBulkMessages drv recipients message delay w))) =
              filter (\<lambda>e. \<not> is_sleep e) (trace w) @
              map (\<lambda>to. Sent (formatPhoneNumber to) message) recipients) \<and>
         results summary = rs \<and>
         total_sent summary = length recipients \<and>
         successful summary = length (filter success rs) \<and>
         failed summary = length (filter (\<lambda>r. \<not> success r) rs) \<and>
         successful summary + failed summary = total_sent summary"
proof -
  have names: "map recipient rs = recipients"
    unfolding rs_def sendBulkMessages_def by (simp add: bulk_loop_recipients)
  have each: "\<forall>k < length recipients.
            rs ! k =
              (case snd (sendMessage drv (recipients ! k) message (before k)) of
                 Inr result \<Rightarrow> Delivered (recipients ! k) result
               | Inl e \<Rightarrow> Failed (recipients ! k) e)"
    unfolding rs_def ms_def before_def sendBulkMessages_def
    by (simp add: bulk_loop_nth bulk_loop_world)
  have final: "fst (sendBulkMessages drv recipients message delay w) = before (length recipients)"
    unfolding ms_def before_def sendBulkMessages_def by (simp add: bulk_loop_world)
  then have answered: "fst (sendBulkMessages_controller drv recipients message delay w) =
      before (length recipients)"
    by (simp add: sendBulkMessages_controller_def case_prod_beta)
  have sends: "filter (\<lambda>e. \<not> is_sleep e)
        (trace (fst (sendBulkMessages drv recipients message delay w))) =
      filter (\<lambda>e. \<not> is_sleep e) (trace w) @
      map (\<lambda>to. Sent (formatPhoneNumber to) message) recipients"
    if "\<forall>c. ready drv c"
    unfolding final before_def using that by (simp add: bulk_world_sends)
  have summary: "results summary = rs" "total_sent summary = length recipients"
    "successful summary = length (filter success rs)"
    "failed summary = length (filter (\<lambda>r. \<not> success r) rs)"
    unfolding summary_def rs_def sendBulkMessages_controller_def
    by (simp_all add: case_prod_beta Let_def)
  from names have "length rs = length recipients" by (metis length_map)
  with summary have "successful summary + failed summary = total_sent summary"
    by (simp add: sum_length_filter_compl)
  with names each final answered sends summary show ?thesis by blast
qed

text \<open>
  Three recipients and the counting client, which refuses the second message it is given.
  The outcomes are success, failure, success, in that order, the failure being the one of
  the second recipient; the counts are two successful and one failed; the client has been
  called three times, once for each recipient in the order of the list, with a sleep after
  the first and after the second call.
\<close>

theorem sendBulkMessages_outcomes_witness:
  "map success (results (snd (sendBulkMessages_controller sample_counting_driver
      [''573001234567'', ''573009876543'', ''573005550000''] ''hola'' None
      \<lparr>client = 0, trace = []\<rparr>))) = [True, False, True] \<and>
   map recipient (results (snd (sendBulkMessages_controller sample_counting_driver
      [''573001234567'', ''573009876543'', ''573005550000''] ''hola'' None
      \<lparr>client = 0, trace = []\<rparr>))) = [''573001234567'', ''573009876543'', ''573005550000''] \<and>
   results (snd (sendBulkMessages_controller sample_counting_driver
      [''573001234567'', ''573009876543'', ''573005550000''] ''hola'' None
      \<lparr>client = 0, trace = []\<rparr>)) ! 1 = Failed ''573009876543'' ''rate limit'' \<and>
   successful (snd (sendBulkMessages_controller sample_counting_driver
      [''573001234567'', ''573009876543'', ''573005550000''] ''hola'' None
      \<lparr>client = 0, trace = []\<rparr>)) = 2 \<and>
   failed (snd (sendBulkMessages_controller sample_counting_driver
      [''573001234567'', ''573009876543'', ''573005550000''] ''hola'' None
      \<lparr>client = 0, trace = []\<rparr>)) = 1 \<and>
   fst (sendBulkMessages_controller sample_counting_driver
      [''573001234567'', ''573009876543'', ''573005550000''] ''hola'' None
      \<lparr>client = 0, trace = []\<rparr>) =
     \<lparr>client = 3,
      trace = [Sent ''573001234567@c.us'' ''hola'', Slept 2000,
               Sent ''573009876543@c.us'' ''hola'', Slept 2000,
               Sent ''573005550000@c.us'' ''hola'']\<rparr> \<and>
   filter (\<lambda>e. \<not> is_sleep e) (trace (fst (sendBulkMessages sample_counting_driver
      [''573001234567'', ''573009876543'', ''573005550000''] ''hola'' None
      \<lparr>client = 0, trace = []\<rparr>))) =
     [Sent ''573001234567@c.us'' ''hola'', Sent ''573009876543@c.us'' ''hola'',
      Sent ''573005550000@c.us'' ''hola''] \<and>
   snd (sendBulkMessages sample_counting_driver
      [''573001234567'', ''573009876543'', ''573005550000''] ''hola'' None
      \<lparr>client = 0, trace = []\<rparr>) ! 1 = Failed ''573009876543'' ''rate limit''"
proof -
  have always: "\<forall>c. ready sample_counting_driver c"
    by (simp add: sample_counting_driver_def)
  note outcomes = sendBulkMessages_outcomes [of sample_counting_driver
      "[''573001234567'', ''573009876543'', ''573005550000'']" "''hola''" None
      "\<lparr>client = 0, trace = []\<rparr>"]
  have sends: "filter (\<lambda>e. \<not> is_sleep e) (trace (fst (sendBulkMessages sample_counting_driver
      [''573001234567'', ''573009876543'', ''573005550000''] ''hola'' None
      \<lparr>client = 0, trace = []\<rparr>))) =
     [Sent ''573001234567@c.us'' ''hola'', Sent ''573009876543@c.us'' ''hola'',
      Sent ''573005550000@c.us'' ''hola'']"
    using outcomes [THEN conjunct2, THEN conjunct2, THEN conjunct2, THEN conjunct2,
        THEN conjunct1, THEN mp, OF always]
    by (simp add: formatPhoneNumber_def)
  have second: "snd (sendBulkMessages sample_counting_driver
      [''573001234567'', ''573009876543'', ''573005550000''] ''hola'' None
      \<lparr>client = 0, trace = []\<rparr>) ! 1 = Failed ''573009876543'' ''rate limit''"
    using outcomes [THEN conjunct2, THEN conjunct1, rule_format, of 1]
    by (simp add: sendMessage_def sample_counting_driver_def formatPhoneNumber_def
        indexOf_def sleep_def Let_def)
  have rest: "map success (results (snd (sendBulkMessages_controller sample_counting_driver
      [''573001234567'', ''573009876543'', ''573005550000''] ''hola'' None
      \<lparr>client = 0, trace = []\<rparr>))) = [True, False, True] \<and>
   map recipient (results (snd (sendBulkMessages_controller sample_counting_driver
      [''573001234567'', ''573009876543'', ''573005550000''] ''hola'' None
      \<lparr>client = 0, trace = []\<rparr>))) = [''573001234567'', ''573009876543'', ''573005550000''] \<and>
   results (snd (sendBulkMessages_controller sample_counting_driver
      [''573001234567'', ''573009876543'', ''573005550000''] ''hola'' None
      \<lparr>client = 0, trace = []\<rparr>)) ! 1 = Failed ''573009876543'' ''rate limit'' \<and>
   successful (snd (sendBulkMessages_controller sample_counting_driver
      [''573001234567'', ''573009876543'', ''573005550000''] ''hola'' None
      \<lparr>client = 0, trace = []\<rparr>)) = 2 \<and>
   failed (snd (sendBulkMessages_controller sample_counting_driver
      [''573001234567'', ''573009876543'', ''573005550000''] ''hola'' None
      \<lparr>client = 0, trace = []\<rparr>)) = 1 \<and>
   fst (sendBulkMessages_controller sample_counting_driver
      [''573001234567'', ''573009876543'', ''573005550000''] ''hola'' None
      \<lparr>client = 0, trace = []\<rparr>) =
     \<lparr>client = 3,
      trace = [Sent ''573001234567@c.us'' ''hola'', Slept 2000,
               Sent ''573009876543@c.us'' ''hola'', Slept 2000,
               Sent ''573005550000@c.us'' ''hola'']\<rparr>"
    by (simp add: sendBulkMessages_controller_def sendBulkMessages_def sendMessage_def
        sample_counting_driver_def formatPhoneNumber_def indexOf_def sleep_def Let_def)
  from rest sends second show ?thesis by simp
qed

text \<open>
  Claim C9 at the recipients \<^verbatim>\<open>["573001234567", "573001234567"]\<close>: the same number twice.
  \<^verbatim>\<open>indexOf\<close> gives 0 for both, which is less than 1, so the service sleeps after the
  first send and again after the second, which is the last.
\<close>

theorem sendBulkMessages_trailing_delay:
  "trace (fst (sendBulkMessages sample_driver [''573001234567'', ''573001234567''] ''hola'' None
      \<lparr>client = (), trace = []\<rparr>)) =
     [Sent ''573001234567@c.us'' ''hola'', Slept 2000,
      Sent ''573001234567@c.us'' ''hola'', Slept 2000]"
  by (simp add: sendBulkMessages_def sendMessage_def sample_driver_def formatPhoneNumber_def
      indexOf_def sleep_def Let_def)

text \<open>
  Where the claim and the code agree: when no recipient occurs twice, the service sleeps
  once after every send but the last, and the world it returns is the one the last send
  left.
\<close>

lemma indexOf_first:
  "x \<notin> set pre \<Longrightarrow> indexOf (pre @ x # rest) x = int (length pre)"
  by (induction pre) (auto simp add: indexOf_def split: option.splits)

lemma sendMessage_sleeps:
  "filter is_sleep (trace (fst (sendMessage drv to m w))) = filter is_sleep (trace w)"
  by (simp add: sendMessage_def Let_def split: prod.splits sum.splits)

lemma bulk_loop_sleeps:
  assumes "distinct (pre @ xs)"
  shows "length (filter is_sleep (trace (fst (bulk_loop drv (pre @ xs) m ms xs w acc)))) =
           length (filter is_sleep (trace w)) + (length xs - 1)"
  using assms
proof (induction xs arbitrary: pre w acc)
  case Nil
  show ?case by simp
next
  case (Cons x xs)
  from Cons.prems have fresh: "x \<notin> set pre" and rest: "distinct ((pre @ [x]) @ xs)"
    by simp_all
  from fresh have idx: "indexOf (pre @ x # xs) x = int (length pre)"
    by (rule indexOf_first)
  have step: "length (filter is_sleep (trace (fst (bulk_loop drv ((pre @ [x]) @ xs) m ms xs v acc')))) =
           length (filter is_sleep (trace v)) + (length xs - 1)" for v acc'
    using rest by (rule Cons.IH)
  show ?case
  proof (cases "xs = []")
    case True
    with idx show ?thesis
      by (simp add: Let_def case_prod_beta sendMessage_sleeps)
  next
    case False
    then have more: "0 < length xs" by simp
    with idx have "indexOf (pre @ x # xs) x < int (length (pre @ x # xs)) - 1" by simp
    then have "fst (bulk_loop drv (pre @ x # xs) m ms (x # xs) w acc) =
        fst (bulk_loop drv ((pre @ [x]) @ xs) m ms xs
          (sleep drv ms (fst (sendMessage drv x m w)))
          (acc @ [case snd (sendMessage drv x m w) of
                    Inr result \<Rightarrow> Delivered x result | Inl e \<Rightarrow> Failed x e]))"
      by (simp add: Let_def case_prod_beta)
    with step more show ?thesis
      by (simp add: sendMessage_sleeps sleep_def)
  qed
qed

lemma sendBulkMessages_delays_distinct:
  assumes "distinct recipients"
  shows "length (filter is_sleep (trace (fst (sendBulkMessages drv recipients message delay w)))) =
           length (filter is_sleep (trace w)) + (length recipients - 1)"
  unfolding sendBulkMessages_def
  using bulk_loop_sleeps [of "[]" recipients] assms by simp

lemma sendBulkMessages_no_trailing_delay_distinct:
  assumes "distinct (xs @ [x])"
  shows "fst (sendBulkMessages drv (xs @ [x]) message delay w) =
           fst (sendMessage drv x message
             (fst (bulk_loop drv (xs @ [x]) message
                (case delay of None \<Rightarrow> 2000 | Some ms \<Rightarrow> if ms = 0 then 2000 else ms) xs w [])))"
proof -
  from assms have "x \<notin> set xs" by simp
  then have "indexOf (xs @ [x]) x = int (length xs)"
    using indexOf_first [of x xs "[]"] by simp
  then show ?thesis
    by (simp add: sendBulkMessages_def bulk_loop_append case_prod_beta Let_def)
qed

end
